theory Spec2Isabelle
  imports Main
begin

section \<open>Values, errors and the calls made to the collaborators\<close>

text \<open>
  The layer in \<^verbatim>\<open>src/index.ts\<close> sits between a caller and three collaborators it
  does not implement: the connection pool (\<^verbatim>\<open>getConnection\<close>, \<^verbatim>\<open>release\<close>), the
  synchronous driver (\<^verbatim>\<open>connection.query\<close>, \<^verbatim>\<open>connection.queryStream\<close>,
  \<^verbatim>\<open>connection.dispose\<close>) and the audit callback reached through \<^verbatim>\<open>#onQuery\<close>.
  Every call the layer makes to one of them is recorded, in order, in a trace; what the
  collaborator answers is taken from an environment that may look at the whole trace so
  far, so that a stateful driver or pool is covered. \<^verbatim>\<open>release\<close>, \<^verbatim>\<open>dispose\<close> and
  \<^verbatim>\<open>controller.abort\<close> are taken to return normally; \<^verbatim>\<open>getConnection\<close>, the audit
  callback and the two query calls of the driver may fail.
\<close>

type_synonym SQLQuery = string

text \<open>A JavaScript \<^verbatim>\<open>Error\<close> with its message.\<close>

datatype error = Error string

definition Transaction_aborted :: error where
  "Transaction_aborted = Error ''Transaction aborted''"

text \<open>The eventual outcome of a promise: it fulfils, it rejects, or it never settles.\<close>

datatype 'a promise = Fulfilled 'a | Rejected error | Pending

text \<open>
  The lazy row sequence a driver hands back from \<^verbatim>\<open>connection.queryStream\<close>: it yields a
  row and goes on, ends, or throws.
\<close>

datatype 'r rows = Exhausted | Row 'r "'r rows" | Throws error

text \<open>Raw connections, abort controllers and transactions are named by numbers.\<close>

datatype event =
    GetConnection
  | Release nat
  | OnQuery SQLQuery
  | ConnQuery nat SQLQuery
  | ConnQueryStream nat SQLQuery
  | Abort nat
  | Dispose nat

record 'r env =
  pool_grants :: "event list \<Rightarrow> nat promise"
  hook_throws :: "event list \<Rightarrow> SQLQuery \<Rightarrow> error option"
  driver_query :: "event list \<Rightarrow> nat \<Rightarrow> SQLQuery \<Rightarrow> error + 'r list"
  driver_rows :: "event list \<Rightarrow> nat \<Rightarrow> SQLQuery \<Rightarrow> 'r rows"

section \<open>The mutable state of the layer\<close>

text \<open>\<^verbatim>\<open>class TransactionImplementation\<close>: its connection and its \<^verbatim>\<open>aborted\<close> field.\<close>

record TransactionImplementation =
  connection :: nat
  aborted :: bool

text \<open>
  \<^verbatim>\<open>controller\<close> is the optional field \<^verbatim>\<open>connection.controller\<close> of each raw connection
  (\<^verbatim>\<open>SyncDatabaseConnectionWithController\<close>), \<^verbatim>\<open>signal_aborted\<close> the flag
  \<^verbatim>\<open>controller.signal.aborted\<close> of each \<^verbatim>\<open>AbortController\<close>, and \<^verbatim>\<open>transaction\<close> the
  store of \<^verbatim>\<open>TransactionImplementation\<close> objects; the two counters give the next fresh
  name.
\<close>

record world =
  trace :: "event list"
  controller :: "nat \<Rightarrow> nat option"
  signal_aborted :: "nat \<Rightarrow> bool"
  controllers :: nat
  transaction :: "nat \<Rightarrow> TransactionImplementation"
  transactions :: nat

definition initial :: world where
  "initial = \<lparr>trace = [], controller = (\<lambda>_. None), signal_aborted = (\<lambda>_. False),
     controllers = 0, transaction = (\<lambda>_. \<lparr>connection = 0, aborted = False\<rparr>),
     transactions = 0\<rparr>"

definition emit :: "event \<Rightarrow> world \<Rightarrow> world" where
  "emit ev w = w\<lparr>trace := trace w @ [ev]\<rparr>"

subsection \<open>Calls to the collaborators\<close>

definition getConnection :: "'r env \<Rightarrow> world \<Rightarrow> nat promise \<times> world" where
  "getConnection env w = (pool_grants env (trace w), emit GetConnection w)"

definition release :: "nat \<Rightarrow> world \<Rightarrow> world" where
  "release c w = emit (Release c) w"

text \<open>
  \<^verbatim>\<open>this.#onQuery(query)\<close> (index.ts 111-117): formats the query and calls the optional
  callback; \<open>Some e\<close> when that throws.
\<close>

definition onQuery :: "'r env \<Rightarrow> SQLQuery \<Rightarrow> world \<Rightarrow> error option \<times> world" where
  "onQuery env q w = (hook_throws env (trace w) q, emit (OnQuery q) w)"

definition connection_query ::
  "'r env \<Rightarrow> nat \<Rightarrow> SQLQuery \<Rightarrow> world \<Rightarrow> (error + 'r list) \<times> world" where
  "connection_query env c q w = (driver_query env (trace w) c q, emit (ConnQuery c q) w)"

definition connection_queryStream ::
  "'r env \<Rightarrow> nat \<Rightarrow> SQLQuery \<Rightarrow> world \<Rightarrow> 'r rows \<times> world" where
  "connection_queryStream env c q w =
     (driver_rows env (trace w) c q, emit (ConnQueryStream c q) w)"

definition connection_dispose :: "nat \<Rightarrow> world \<Rightarrow> world" where
  "connection_dispose c w = emit (Dispose c) w"

definition controller_abort :: "nat \<Rightarrow> world \<Rightarrow> world" where
  "controller_abort k w = emit (Abort k) (w\<lparr>signal_aborted := (signal_aborted w)(k := True)\<rparr>)"

definition new_AbortController :: "world \<Rightarrow> nat \<times> world" where
  "new_AbortController w =
     (controllers w,
      w\<lparr>signal_aborted := (signal_aborted w)(controllers w := False),
        controllers := Suc (controllers w)\<rparr>)"

definition settle :: "error + 'a \<Rightarrow> 'a promise" where
  "settle r = (case r of Inl e \<Rightarrow> Rejected e | Inr v \<Rightarrow> Fulfilled v)"

section \<open>The pool hooks (index.ts 118-135)\<close>

definition closeConnection :: "nat \<Rightarrow> world \<Rightarrow> world" where
  "closeConnection c w = connection_dispose c w"

definition onReleaseTimeout :: "nat \<Rightarrow> world \<Rightarrow> world" where
  "onReleaseTimeout c w =
     (let w1 = (case controller w c of Some k \<Rightarrow> controller_abort k w | None \<Rightarrow> w)
      in connection_dispose c w1)"

section \<open>One-shot query (index.ts 138-147)\<close>

definition query :: "'r env \<Rightarrow> SQLQuery \<Rightarrow> world \<Rightarrow> 'r list promise \<times> world" where
  "query env q w =
     (case getConnection env w of
        (Pending, w1) \<Rightarrow> (Pending, w1)
      | (Rejected e, w1) \<Rightarrow> (Rejected e, w1)
      | (Fulfilled c, w1) \<Rightarrow>
          (case onQuery env q w1 of
             (Some e, w2) \<Rightarrow> (Rejected e, release c w2)
           | (None, w2) \<Rightarrow>
               (case connection_query env c q w2 of
                  (res, w3) \<Rightarrow> (settle res, release c w3))))"

section \<open>Async generators\<close>

text \<open>
  What one \<^verbatim>\<open>next()\<close>, \<^verbatim>\<open>return()\<close> or \<^verbatim>\<open>throw()\<close> on an async generator gives its
  consumer: a row, the end of the sequence, an exception, or a promise that never
  settles.
\<close>

datatype 'r step = Yield 'r | Done | Raise error | Unsettled

subsection \<open>The transaction-scoped stream (index.ts 31-42)\<close>

text \<open>
  The generator object of \<^verbatim>\<open>transactionalQueryStream\<close>: not started yet (its body has
  not run), suspended at \<^verbatim>\<open>yield row\<close> inside the \<^verbatim>\<open>for\<close> loop with the rest of the
  driver's sequence, or completed.
\<close>

datatype 'r tgen = TStart nat SQLQuery | TYield nat "'r rows" | TCompleted

text \<open>One turn of the \<^verbatim>\<open>for\<close> loop (lines 36-41).\<close>

definition transactional_loop :: "nat \<Rightarrow> 'r rows \<Rightarrow> world \<Rightarrow> 'r step \<times> 'r tgen" where
  "transactional_loop t rs w =
     (case rs of
        Exhausted \<Rightarrow> (Done, TCompleted)
      | Throws e \<Rightarrow> (Raise e, TCompleted)
      | Row r rest \<Rightarrow>
          (if aborted (transaction w t) then (Raise Transaction_aborted, TCompleted)
           else (Yield r, TYield t rest)))"

definition transactionalQueryStream_next ::
  "'r env \<Rightarrow> 'r tgen \<Rightarrow> world \<Rightarrow> ('r step \<times> 'r tgen) \<times> world" where
  "transactionalQueryStream_next env g w =
     (case g of
        TStart t q \<Rightarrow>
          (case connection_queryStream env (connection (transaction w t)) q w of
             (rs, w1) \<Rightarrow> (transactional_loop t rs w1, w1))
      | TYield t rs \<Rightarrow> (transactional_loop t rs w, w)
      | TCompleted \<Rightarrow> ((Done, TCompleted), w))"

definition transactionalQueryStream_return ::
  "'r tgen \<Rightarrow> world \<Rightarrow> ('r step \<times> 'r tgen) \<times> world" where
  "transactionalQueryStream_return g w = ((Done, TCompleted), w)"

definition transactionalQueryStream_throw ::
  "error \<Rightarrow> 'r tgen \<Rightarrow> world \<Rightarrow> ('r step \<times> 'r tgen) \<times> world" where
  "transactionalQueryStream_throw e g w = ((Raise e, TCompleted), w)"

subsection \<open>class TransactionImplementation (index.ts 44-66)\<close>

definition new_TransactionImplementation :: "nat \<Rightarrow> world \<Rightarrow> nat \<times> world" where
  "new_TransactionImplementation c w =
     (transactions w,
      w\<lparr>transaction := (transaction w)(transactions w := \<lparr>connection = c, aborted = False\<rparr>),
        transactions := Suc (transactions w)\<rparr>)"

definition TransactionImplementation_query ::
  "'r env \<Rightarrow> nat \<Rightarrow> SQLQuery \<Rightarrow> world \<Rightarrow> 'r list promise \<times> world" where
  "TransactionImplementation_query env t q w =
     (if aborted (transaction w t) then (Rejected Transaction_aborted, w)
      else
        (case onQuery env q w of
           (Some e, w1) \<Rightarrow> (Rejected e, w1)
         | (None, w1) \<Rightarrow>
             (case connection_query env (connection (transaction w1 t)) q w1 of
                (res, w2) \<Rightarrow> (settle res, w2))))"

definition TransactionImplementation_queryStream ::
  "'r env \<Rightarrow> nat \<Rightarrow> SQLQuery \<Rightarrow> world \<Rightarrow> (error + 'r tgen) \<times> world" where
  "TransactionImplementation_queryStream env t q w =
     (case onQuery env q w of
        (Some e, w1) \<Rightarrow> (Inl e, w1)
      | (None, w1) \<Rightarrow> (Inr (TStart t q), w1))"

subsection \<open>The pool-level stream (index.ts 68-82 and 149-152)\<close>

text \<open>
  The generator object of the module-level \<^verbatim>\<open>queryStream\<close>. Its first argument is the
  promise \<^verbatim>\<open>this.#pool.getConnection()\<close>, made by the caller before the generator
  exists; the body awaits it only when the consumer asks for the first row.
  \<open>PAwaiting\<close> is a generator stuck at that \<^verbatim>\<open>await\<close> for ever.
\<close>

datatype 'r pgen =
    PStart "nat promise" SQLQuery
  | PAwaiting
  | PYield nat "'r rows"
  | PCompleted

text \<open>One turn of the \<^verbatim>\<open>for\<close> loop inside \<^verbatim>\<open>try\<close>; leaving the loop runs \<^verbatim>\<open>finally\<close>.\<close>

definition queryStream_loop :: "nat \<Rightarrow> 'r rows \<Rightarrow> world \<Rightarrow> ('r step \<times> 'r pgen) \<times> world" where
  "queryStream_loop c rs w =
     (case rs of
        Exhausted \<Rightarrow> ((Done, PCompleted), release c w)
      | Throws e \<Rightarrow> ((Raise e, PCompleted), release c w)
      | Row r rest \<Rightarrow> ((Yield r, PYield c rest), w))"

definition queryStream_next ::
  "'r env \<Rightarrow> 'r pgen \<Rightarrow> world \<Rightarrow> ('r step \<times> 'r pgen) \<times> world" where
  "queryStream_next env g w =
     (case g of
        PStart p q \<Rightarrow>
          (case p of
             Pending \<Rightarrow> ((Unsettled, PAwaiting), w)
           | Rejected e \<Rightarrow> ((Raise e, PCompleted), w)
           | Fulfilled c \<Rightarrow>
               (case connection_queryStream env c q w of
                  (rs, w1) \<Rightarrow> queryStream_loop c rs w1))
      | PAwaiting \<Rightarrow> ((Unsettled, PAwaiting), w)
      | PYield c rs \<Rightarrow> queryStream_loop c rs w
      | PCompleted \<Rightarrow> ((Done, PCompleted), w))"

text \<open>
  \<^verbatim>\<open>return()\<close>: a generator that has not started completes without running any of its
  body, so neither \<^verbatim>\<open>try\<close> nor \<^verbatim>\<open>finally\<close> is entered; one suspended at \<^verbatim>\<open>yield\<close>
  leaves through \<^verbatim>\<open>finally\<close>.
\<close>

definition queryStream_return :: "'r pgen \<Rightarrow> world \<Rightarrow> ('r step \<times> 'r pgen) \<times> world" where
  "queryStream_return g w =
     (case g of
        PStart p q \<Rightarrow> ((Done, PCompleted), w)
      | PAwaiting \<Rightarrow> ((Unsettled, PAwaiting), w)
      | PYield c rs \<Rightarrow> ((Done, PCompleted), release c w)
      | PCompleted \<Rightarrow> ((Done, PCompleted), w))"

definition queryStream_throw ::
  "error \<Rightarrow> 'r pgen \<Rightarrow> world \<Rightarrow> ('r step \<times> 'r pgen) \<times> world" where
  "queryStream_throw e g w =
     (case g of
        PStart p q \<Rightarrow> ((Raise e, PCompleted), w)
      | PAwaiting \<Rightarrow> ((Unsettled, PAwaiting), w)
      | PYield c rs \<Rightarrow> ((Raise e, PCompleted), release c w)
      | PCompleted \<Rightarrow> ((Raise e, PCompleted), w))"

text \<open>The method \<^verbatim>\<open>DatabaseConnectionImplementation.queryStream\<close> (lines 149-152).\<close>

definition queryStream :: "'r env \<Rightarrow> SQLQuery \<Rightarrow> world \<Rightarrow> (error + 'r pgen) \<times> world" where
  "queryStream env q w =
     (case onQuery env q w of
        (Some e, w1) \<Rightarrow> (Inl e, w1)
      | (None, w1) \<Rightarrow>
          (case getConnection env w1 of (p, w2) \<Rightarrow> (Inr (PStart p q), w2)))"

section \<open>Transactions (index.ts 154-180)\<close>

text \<open>
  The function a caller passes to \<^verbatim>\<open>tx\<close> sees the transaction through \<^verbatim>\<open>query\<close> and
  \<^verbatim>\<open>queryStream\<close>. It is modelled by what it does with them: it settles with a value or
  an error, never settles, or makes one of those calls and goes on with what the call
  gave back.

  The object it is handed is the \<^verbatim>\<open>TransactionImplementation\<close> itself, whose
  \<^verbatim>\<open>connection\<close> field carries the controller stored at line 161, so a function can also
  put a listener on \<^verbatim>\<open>tx.connection.controller.signal\<close>. \<open>OnAbort r\<close> is the function
  that has done so during the call \<^verbatim>\<open>fn(tx)\<close> and whose promise the listener settles with
  \<open>r\<close>: it is unsettled until that controller is aborted.
\<close>

datatype ('r, 'a) user_fn =
    Resolves 'a
  | Rejects error
  | NeverSettles
  | DoQuery SQLQuery "'r list promise \<Rightarrow> ('r, 'a) user_fn"
  | DoQueryStream SQLQuery "error + 'r tgen \<Rightarrow> ('r, 'a) user_fn"
  | DoNext "'r tgen" "'r step \<times> 'r tgen \<Rightarrow> ('r, 'a) user_fn"
  | DoReturn "'r tgen" "'r step \<times> 'r tgen \<Rightarrow> ('r, 'a) user_fn"
  | DoThrow error "'r tgen" "'r step \<times> 'r tgen \<Rightarrow> ('r, 'a) user_fn"
  | OnAbort "error + 'a"

text \<open>
  The pool's release timeout is the second input of a transaction: \<open>None\<close> when it never
  fires, \<open>Some n\<close> when it fires once the function has made \<open>n\<close> calls and has not
  settled by then.
\<close>

definition spend :: "nat option \<Rightarrow> nat option" where
  "spend b = (case b of None \<Rightarrow> None | Some n \<Rightarrow> Some (n - 1))"

text \<open>
  Running \<^verbatim>\<open>fn(tx)\<close> on transaction \<open>t\<close> until it settles or the timeout is due;
  \<open>Pending\<close> says it has not settled.
\<close>

primrec run_fn ::
  "'r env \<Rightarrow> nat \<Rightarrow> ('r, 'a) user_fn \<Rightarrow> nat option \<Rightarrow> world \<Rightarrow> 'a promise \<times> world" where
  "run_fn env t (Resolves v) b w = (Fulfilled v, w)"
| "run_fn env t (Rejects e) b w = (Rejected e, w)"
| "run_fn env t NeverSettles b w = (Pending, w)"
| "run_fn env t (DoQuery q k) b w =
     (if b = Some 0 then (Pending, w)
      else (case TransactionImplementation_query env t q w of
              (r, w1) \<Rightarrow> run_fn env t (k r) (spend b) w1))"
| "run_fn env t (DoQueryStream q k) b w =
     (if b = Some 0 then (Pending, w)
      else (case TransactionImplementation_queryStream env t q w of
              (r, w1) \<Rightarrow> run_fn env t (k r) (spend b) w1))"
| "run_fn env t (DoNext g k) b w =
     (if b = Some 0 then (Pending, w)
      else (case transactionalQueryStream_next env g w of
              (r, w1) \<Rightarrow> run_fn env t (k r) (spend b) w1))"
| "run_fn env t (DoReturn g k) b w =
     (if b = Some 0 then (Pending, w)
      else (case transactionalQueryStream_return g w of
              (r, w1) \<Rightarrow> run_fn env t (k r) (spend b) w1))"
| "run_fn env t (DoThrow e g k) b w =
     (if b = Some 0 then (Pending, w)
      else (case transactionalQueryStream_throw e g w of
              (r, w1) \<Rightarrow> run_fn env t (k r) (spend b) w1))"
| "run_fn env t (OnAbort r) b w = (Pending, w)"

text \<open>
  Where the function stands when \<open>run_fn\<close> stops: what is left of it to run. For a
  function that has settled this is the settlement itself.
\<close>

primrec suspended ::
  "'r env \<Rightarrow> nat \<Rightarrow> ('r, 'a) user_fn \<Rightarrow> nat option \<Rightarrow> world \<Rightarrow> ('r, 'a) user_fn" where
  "suspended env t (Resolves v) b w = Resolves v"
| "suspended env t (Rejects e) b w = Rejects e"
| "suspended env t NeverSettles b w = NeverSettles"
| "suspended env t (DoQuery q k) b w =
     (if b = Some 0 then DoQuery q k
      else (case TransactionImplementation_query env t q w of
              (r, w1) \<Rightarrow> suspended env t (k r) (spend b) w1))"
| "suspended env t (DoQueryStream q k) b w =
     (if b = Some 0 then DoQueryStream q k
      else (case TransactionImplementation_queryStream env t q w of
              (r, w1) \<Rightarrow> suspended env t (k r) (spend b) w1))"
| "suspended env t (DoNext g k) b w =
     (if b = Some 0 then DoNext g k
      else (case transactionalQueryStream_next env g w of
              (r, w1) \<Rightarrow> suspended env t (k r) (spend b) w1))"
| "suspended env t (DoReturn g k) b w =
     (if b = Some 0 then DoReturn g k
      else (case transactionalQueryStream_return g w of
              (r, w1) \<Rightarrow> suspended env t (k r) (spend b) w1))"
| "suspended env t (DoThrow e g k) b w =
     (if b = Some 0 then DoThrow e g k
      else (case transactionalQueryStream_throw e g w of
              (r, w1) \<Rightarrow> suspended env t (k r) (spend b) w1))"
| "suspended env t (OnAbort r) b w = OnAbort r"

text \<open>What a suspended function's own listener does when the controller is aborted.\<close>

fun abort_reaction :: "('r, 'a) user_fn \<Rightarrow> (error + 'a) option" where
  "abort_reaction (OnAbort r) = Some r"
| "abort_reaction _ = None"

text \<open>
  Lines 158-161: \<^verbatim>\<open>BEGIN\<close> straight on the raw connection, a fresh
  \<^verbatim>\<open>AbortController\<close>, a fresh \<^verbatim>\<open>TransactionImplementation\<close>, and the controller
  stored in \<^verbatim>\<open>connection.controller\<close>.
\<close>

definition tx_setup :: "'r env \<Rightarrow> nat \<Rightarrow> world \<Rightarrow> (error + nat \<times> nat) \<times> world" where
  "tx_setup env c w =
     (case connection_query env c ''BEGIN'' w of
        (Inl e, w1) \<Rightarrow> (Inl e, w1)
      | (Inr _, w1) \<Rightarrow>
          (case new_AbortController w1 of
             (k, w2) \<Rightarrow>
               (case new_TransactionImplementation c w2 of
                  (t, w3) \<Rightarrow> (Inr (t, k), w3\<lparr>controller := (controller w3)(c \<mapsto> k)\<rparr>))))"

text \<open>
  Lines 162-167, \<^verbatim>\<open>Promise.race\<close>: the function's promise, listed first, against the
  \<^verbatim>\<open>abort\<close> event of controller \<open>k\<close>, and the first of the two to settle decides.
  When the function has not settled and the release timeout is due, the pool calls
  \<^verbatim>\<open>onReleaseTimeout\<close> on the leased connection \<open>c\<close>. If that aborts \<open>k\<close>, the listeners on
  its signal run inside \<^verbatim>\<open>controller.abort()\<close>. A function whose own listener settles
  its promise there has settled before the second promise has: that one rejects only
  after the promise of \<^verbatim>\<open>once\<close> has resolved and its \<^verbatim>\<open>then\<close> callback has thrown, two
  turns of the microtask queue later. So such a function decides the race, and every
  other unsettled function loses it to "Transaction aborted". A function that lost goes
  on by itself after the transaction; \<open>suspended\<close> is what it then still has to run.
\<close>

definition race ::
  "'r env \<Rightarrow> nat \<Rightarrow> nat \<Rightarrow> nat \<Rightarrow> ('r, 'a) user_fn \<Rightarrow> nat option \<Rightarrow> world
     \<Rightarrow> 'a promise \<times> world" where
  "race env c t k fn b w =
     (case run_fn env t fn b w of
        (Fulfilled v, w1) \<Rightarrow> (Fulfilled v, w1)
      | (Rejected e, w1) \<Rightarrow> (Rejected e, w1)
      | (Pending, w1) \<Rightarrow>
          (case b of
             None \<Rightarrow> (Pending, w1)
           | Some n \<Rightarrow>
               (let w2 = onReleaseTimeout c w1
                in if signal_aborted w2 k
                   then (case abort_reaction (suspended env t fn b w) of
                           Some r \<Rightarrow> (settle r, w2)
                         | None \<Rightarrow> (Rejected Transaction_aborted, w2))
                   else (Pending, w2))))"

text \<open>The \<^verbatim>\<open>try\<close> block, lines 158-169.\<close>

definition tx_try ::
  "'r env \<Rightarrow> nat \<Rightarrow> ('r, 'a) user_fn \<Rightarrow> nat option \<Rightarrow> world \<Rightarrow> 'a promise \<times> world" where
  "tx_try env c fn b w =
     (case tx_setup env c w of
        (Inl e, w1) \<Rightarrow> (Rejected e, w1)
      | (Inr (t, k), w1) \<Rightarrow>
          (case race env c t k fn b w1 of
             (Pending, w2) \<Rightarrow> (Pending, w2)
           | (Rejected e, w2) \<Rightarrow> (Rejected e, w2)
           | (Fulfilled v, w2) \<Rightarrow>
               (case connection_query env c ''COMMIT'' w2 of
                  (Inl e, w3) \<Rightarrow> (Rejected e, w3)
                | (Inr _, w3) \<Rightarrow> (Fulfilled v, w3))))"

text \<open>The \<^verbatim>\<open>catch\<close> block, lines 170-176, up to the rethrow.\<close>

definition tx_catch :: "'r env \<Rightarrow> nat \<Rightarrow> world \<Rightarrow> world" where
  "tx_catch env c w =
     (case connection_query env c ''ROLLBACK'' w of
        (Inl e2, w1) \<Rightarrow> w1
      | (Inr _, w1) \<Rightarrow> w1)"

definition tx ::
  "'r env \<Rightarrow> ('r, 'a) user_fn \<Rightarrow> nat option \<Rightarrow> world \<Rightarrow> 'a promise \<times> world" where
  "tx env fn b w =
     (case getConnection env w of
        (Pending, w1) \<Rightarrow> (Pending, w1)
      | (Rejected e, w1) \<Rightarrow> (Rejected e, w1)
      | (Fulfilled c, w1) \<Rightarrow>
          (case tx_try env c fn b w1 of
             (Pending, w2) \<Rightarrow> (Pending, w2)
           | (Fulfilled v, w2) \<Rightarrow> (Fulfilled v, release c w2)
           | (Rejected e, w2) \<Rightarrow> (Rejected e, release c (tx_catch env c w2))))"

section \<open>Everything that can happen to a pool\<close>

text \<open>
  The calls a program holding the pool can make, in any order and on any object it
  holds, together with the two hooks the pool itself calls.
\<close>

datatype ('r, 'a) op =
    CallQuery SQLQuery
  | CallQueryStream SQLQuery
  | CallNext "'r pgen"
  | CallReturn "'r pgen"
  | CallThrow error "'r pgen"
  | CallTx "('r, 'a) user_fn" "nat option"
  | TxQuery nat SQLQuery
  | TxQueryStream nat SQLQuery
  | TxNext "'r tgen"
  | TxReturn "'r tgen"
  | TxThrow error "'r tgen"
  | ReleaseTimeout nat
  | CloseConnection nat

fun run_op :: "'r env \<Rightarrow> ('r, 'a) op \<Rightarrow> world \<Rightarrow> world" where
  "run_op env (CallQuery q) w = snd (query env q w)"
| "run_op env (CallQueryStream q) w = snd (queryStream env q w)"
| "run_op env (CallNext g) w = snd (queryStream_next env g w)"
| "run_op env (CallReturn g) w = snd (queryStream_return g w)"
| "run_op env (CallThrow e g) w = snd (queryStream_throw e g w)"
| "run_op env (CallTx fn b) w = snd (tx env fn b w)"
| "run_op env (TxQuery t q) w = snd (TransactionImplementation_query env t q w)"
| "run_op env (TxQueryStream t q) w = snd (TransactionImplementation_queryStream env t q w)"
| "run_op env (TxNext g) w = snd (transactionalQueryStream_next env g w)"
| "run_op env (TxReturn g) w = snd (transactionalQueryStream_return g w)"
| "run_op env (TxThrow e g) w = snd (transactionalQueryStream_throw e g w)"
| "run_op env (ReleaseTimeout c) w = onReleaseTimeout c w"
| "run_op env (CloseConnection c) w = closeConnection c w"

fun run_ops :: "'r env \<Rightarrow> ('r, 'a) op list \<Rightarrow> world \<Rightarrow> world" where
  "run_ops env [] w = w"
| "run_ops env (x # xs) w = run_ops env xs (run_op env x w)"

section \<open>Consumers of a stream\<close>

datatype call = Next | Return | Throw error

text \<open>A consumer making one call after the other on the generator it holds.\<close>

fun consume :: "'r env \<Rightarrow> call list \<Rightarrow> 'r pgen \<Rightarrow> world \<Rightarrow> 'r pgen \<times> world" where
  "consume env [] g w = (g, w)"
| "consume env (Next # cs) g w =
     (case queryStream_next env g w of ((s, g1), w1) \<Rightarrow> consume env cs g1 w1)"
| "consume env (Return # cs) g w =
     (case queryStream_return g w of ((s, g1), w1) \<Rightarrow> consume env cs g1 w1)"
| "consume env (Throw e # cs) g w =
     (case queryStream_throw e g w of ((s, g1), w1) \<Rightarrow> consume env cs g1 w1)"

fun transactional_consume ::
  "'r env \<Rightarrow> call list \<Rightarrow> 'r tgen \<Rightarrow> world \<Rightarrow> 'r tgen \<times> world" where
  "transactional_consume env [] g w = (g, w)"
| "transactional_consume env (Next # cs) g w =
     (case transactionalQueryStream_next env g w of
        ((s, g1), w1) \<Rightarrow> transactional_consume env cs g1 w1)"
| "transactional_consume env (Return # cs) g w =
     (case transactionalQueryStream_return g w of
        ((s, g1), w1) \<Rightarrow> transactional_consume env cs g1 w1)"
| "transactional_consume env (Throw e # cs) g w =
     (case transactionalQueryStream_throw e g w of
        ((s, g1), w1) \<Rightarrow> transactional_consume env cs g1 w1)"

text \<open>A stream from the call that makes it to the last call of its consumer.\<close>

definition stream_session :: "'r env \<Rightarrow> SQLQuery \<Rightarrow> call list \<Rightarrow> world \<Rightarrow> world" where
  "stream_session env q cs w =
     (case queryStream env q w of
        (Inl e, w1) \<Rightarrow> w1
      | (Inr g, w1) \<Rightarrow> snd (consume env cs g w1))"

definition transactional_session ::
  "'r env \<Rightarrow> nat \<Rightarrow> SQLQuery \<Rightarrow> call list \<Rightarrow> world \<Rightarrow> world" where
  "transactional_session env t q cs w =
     (case TransactionImplementation_queryStream env t q w of
        (Inl e, w1) \<Rightarrow> w1
      | (Inr g, w1) \<Rightarrow> snd (transactional_consume env cs g w1))"

section \<open>Reading a trace\<close>

text \<open>The events a step added: those of \<open>w'\<close> after the ones \<open>w\<close> already had.\<close>

definition since :: "world \<Rightarrow> world \<Rightarrow> event list" where
  "since w w' = drop (length (trace w)) (trace w')"

fun is_audit :: "event \<Rightarrow> bool" where
  "is_audit (OnQuery q) = True"
| "is_audit _ = False"

fun is_dispatch :: "event \<Rightarrow> bool" where
  "is_dispatch (ConnQuery c q) = True"
| "is_dispatch (ConnQueryStream c q) = True"
| "is_dispatch _ = False"

fun is_pool_call :: "event \<Rightarrow> bool" where
  "is_pool_call GetConnection = True"
| "is_pool_call (Release c) = True"
| "is_pool_call _ = False"

text \<open>The audit calls and the dispatches of a trace, in their order.\<close>

definition audit_log :: "event list \<Rightarrow> event list" where
  "audit_log es = filter (\<lambda>ev. is_audit ev \<or> is_dispatch ev) es"

definition audits :: "event list \<Rightarrow> nat" where
  "audits es = length (filter is_audit es)"

definition dispatches :: "event list \<Rightarrow> nat" where
  "dispatches es = length (filter is_dispatch es)"

definition releases :: "nat \<Rightarrow> event list \<Rightarrow> nat" where
  "releases c es = count_list es (Release c)"

text \<open>\<open>only_trace w w'\<close>: from \<open>w\<close> to \<open>w'\<close> calls were made and no field was written.\<close>

definition only_trace :: "world \<Rightarrow> world \<Rightarrow> bool" where
  "only_trace w w' = (\<exists>es. w' = w\<lparr>trace := trace w @ es\<rparr>)"


text \<open>How many times a generator can still call \<^verbatim>\<open>connection.queryStream\<close>.\<close>

fun unstarted :: "'r pgen \<Rightarrow> nat" where
  "unstarted (PStart p q) = 1"
| "unstarted _ = 0"

text \<open>Whether a generator is suspended inside \<^verbatim>\<open>try\<close> with the lease of connection \<open>c'\<close>.\<close>

fun holds :: "'r pgen \<Rightarrow> nat \<Rightarrow> nat" where
  "holds (PYield c rs) c' = (if c = c' then 1 else 0)"
| "holds _ c' = 0"

fun transactional_unstarted :: "'r tgen \<Rightarrow> nat" where
  "transactional_unstarted (TStart t q) = 1"
| "transactional_unstarted _ = 0"

section \<open>Collaborators to run the layer against\<close>

text \<open>
  A pool that always grants connection 7, a callback that never throws, and a driver
  that answers the queries of the repository's tests, rejects the malformed one and
  throws on a disposed connection.
\<close>

definition test_env :: "nat env" where
  "test_env =
     \<lparr>pool_grants = (\<lambda>h. Fulfilled 7),
      hook_throws = (\<lambda>h q. None),
      driver_query = (\<lambda>h c q.
         if Dispose c \<in> set h then Inl (Error ''disposed'')
         else if q = ''SELECT * FRM'' then Inl (Error ''SQLITE_ERROR'')
         else if q = ''SELECT 1 + 1 as foo'' then Inr [2]
         else if q = ''SELECT 1 + 41 as foo'' then Inr [42]
         else if q = ''SELECT 1 + 2 as bar'' then Inr [3]
         else Inr []),
      driver_rows = (\<lambda>h c q.
         if q = ''SELECT * FROM stream_values'' then Row 0 (Row 1 (Row 2 Exhausted))
         else Exhausted)\<rparr>"

text \<open>The same pool with a driver that accepts \<^verbatim>\<open>BEGIN\<close> and refuses everything else.\<close>

definition refusing_env :: "nat env" where
  "refusing_env =
     \<lparr>pool_grants = (\<lambda>h. Fulfilled 7),
      hook_throws = (\<lambda>h q. None),
      driver_query = (\<lambda>h c q. if q = ''BEGIN'' then Inr [] else Inl (Error (''cannot '' @ q))),
      driver_rows = (\<lambda>h c q. Throws (Error (''cannot '' @ q)))\<rparr>"

text \<open>
  \<^verbatim>\<open>await\<close> on the promise a transaction-scoped query returned: the rows, or the
  rejection thrown on.
\<close>

definition await :: "'r list promise \<Rightarrow> ('r list \<Rightarrow> ('r, 'a) user_fn) \<Rightarrow> ('r, 'a) user_fn" where
  "await p k = (case p of Fulfilled rs \<Rightarrow> k rs | Rejected e \<Rightarrow> Rejects e | Pending \<Rightarrow> NeverSettles)"

text \<open>The function of the repository's test "transaction": two queries, both results.\<close>

definition test_fn :: "(nat, nat list \<times> nat list) user_fn" where
  "test_fn =
     DoQuery ''SELECT 1 + 41 as foo'' (\<lambda>p. await p (\<lambda>a.
       DoQuery ''SELECT 1 + 2 as bar'' (\<lambda>p. await p (\<lambda>b. Resolves (a, b)))))"

text \<open>A function that makes its two queries whatever they answer and then returns 5.\<close>

definition late_fn :: "(nat, nat) user_fn" where
  "late_fn =
     DoQuery ''SELECT 1 + 41 as foo'' (\<lambda>p.
       DoQuery ''SELECT 1 + 2 as bar'' (\<lambda>p. Resolves 5))"

text \<open>A world holding one transaction on connection 7 whose flag is set.\<close>

definition aborted_world :: world where
  "aborted_world =
     initial\<lparr>transaction := (\<lambda>_. \<lparr>connection = 7, aborted = True\<rparr>), transactions := 1\<rparr>"

section \<open>Properties\<close>

lemmas calls0 = getConnection_def release_def onQuery_def connection_query_def
  connection_queryStream_def connection_dispose_def

lemma only_trace_refl: "only_trace w w"
  unfolding only_trace_def by (rule exI [of _ "[]"]) simp

lemma only_trace_trans: "only_trace w w1 \<Longrightarrow> only_trace w1 w2 \<Longrightarrow> only_trace w w2"
  by (auto simp: only_trace_def)

lemma only_trace_emit: "only_trace w (emit ev w)"
  by (auto simp: only_trace_def emit_def)

lemma only_trace_emit2: "only_trace w w1 \<Longrightarrow> only_trace w (emit ev w1)"
  using only_trace_trans only_trace_emit by blast

lemma only_trace_fields:
  "only_trace w w' \<Longrightarrow>
     transaction w' = transaction w \<and> controller w' = controller w
     \<and> signal_aborted w' = signal_aborted w \<and> transactions w' = transactions w
     \<and> controllers w' = controllers w"
  by (auto simp: only_trace_def)

lemma query_only_trace: "only_trace w (snd (query env q w))"
  by (auto simp: query_def calls0 settle_def only_trace_refl only_trace_emit2
      split: promise.splits option.splits sum.splits prod.splits)

lemma queryStream_only_trace: "only_trace w (snd (queryStream env q w))"
  by (auto simp: queryStream_def calls0 only_trace_refl only_trace_emit2
      split: promise.splits option.splits sum.splits prod.splits)

lemma queryStream_loop_only_trace: "only_trace w (snd (queryStream_loop c rs w))"
  by (auto simp: queryStream_loop_def calls0 only_trace_refl only_trace_emit2
      split: rows.splits)

lemma queryStream_next_only_trace: "only_trace w (snd (queryStream_next env g w))"
  by (auto simp: queryStream_next_def queryStream_loop_def calls0 only_trace_refl only_trace_emit2 split: pgen.splits promise.splits rows.splits)

lemma queryStream_return_only_trace: "only_trace w (snd (queryStream_return g w))"
  by (auto simp: queryStream_return_def calls0 only_trace_refl only_trace_emit2
      split: pgen.splits)

lemma queryStream_throw_only_trace: "only_trace w (snd (queryStream_throw e g w))"
  by (auto simp: queryStream_throw_def calls0 only_trace_refl only_trace_emit2
      split: pgen.splits)

lemma TransactionImplementation_query_only_trace:
  "only_trace w (snd (TransactionImplementation_query env t q w))"
  by (auto simp: TransactionImplementation_query_def calls0 settle_def only_trace_refl only_trace_emit2
      split: option.splits sum.splits)

lemma TransactionImplementation_queryStream_only_trace:
  "only_trace w (snd (TransactionImplementation_queryStream env t q w))"
  by (auto simp: TransactionImplementation_queryStream_def calls0 only_trace_refl only_trace_emit2
      split: option.splits)

lemma transactionalQueryStream_next_only_trace:
  "only_trace w (snd (transactionalQueryStream_next env g w))"
  by (auto simp: transactionalQueryStream_next_def calls0 only_trace_refl only_trace_emit2
      split: tgen.splits)

lemma transactionalQueryStream_return_only_trace:
  "only_trace w (snd (transactionalQueryStream_return g w))"
  by (simp add: transactionalQueryStream_return_def only_trace_refl)

lemma transactionalQueryStream_throw_only_trace:
  "only_trace w (snd (transactionalQueryStream_throw e g w))"
  by (simp add: transactionalQueryStream_throw_def only_trace_refl)

lemma run_fn_only_trace: "only_trace w (snd (run_fn env t fn b w))"
proof (induction fn arbitrary: b w)
  case (DoQuery q k)
  show ?case
  proof (cases "TransactionImplementation_query env t q w")
    case (Pair r w1)
    have "only_trace w w1"
      using TransactionImplementation_query_only_trace [of w env t q] Pair by simp
    moreover have "only_trace w1 (snd (run_fn env t (k r) (spend b) w1))"
      using DoQuery.IH by simp
    ultimately show ?thesis
      using Pair by (auto simp: only_trace_refl intro: only_trace_trans)
  qed
next
  case (DoQueryStream q k)
  show ?case
  proof (cases "TransactionImplementation_queryStream env t q w")
    case (Pair r w1)
    have "only_trace w w1"
      using TransactionImplementation_queryStream_only_trace [of w env t q] Pair by simp
    moreover have "only_trace w1 (snd (run_fn env t (k r) (spend b) w1))"
      using DoQueryStream.IH by simp
    ultimately show ?thesis
      using Pair by (auto simp: only_trace_refl intro: only_trace_trans)
  qed
next
  case (DoNext g k)
  show ?case
  proof (cases "transactionalQueryStream_next env g w")
    case (Pair r w1)
    have "only_trace w w1"
      using transactionalQueryStream_next_only_trace [of w env g] Pair by simp
    moreover have "only_trace w1 (snd (run_fn env t (k r) (spend b) w1))"
      using DoNext.IH by simp
    ultimately show ?thesis
      using Pair by (auto simp: only_trace_refl intro: only_trace_trans)
  qed
next
  case (DoReturn g k)
  show ?case
    using DoReturn.IH by (simp add: transactionalQueryStream_return_def only_trace_refl)
next
  case (DoThrow e g k)
  show ?case
    using DoThrow.IH by (simp add: transactionalQueryStream_throw_def only_trace_refl)
qed (simp_all add: only_trace_refl)

lemma since_append: "trace w' = trace w @ es \<Longrightarrow> since w w' = es"
  by (simp add: since_def)










text \<open>
  What \<open>suspended\<close> keeps is what is left: running a function up to the timeout and then
  what is left of it to the end is running it to the end.
\<close>

lemma run_fn_resume:
  "run_fn env t (suspended env t fn b w) None (snd (run_fn env t fn b w)) =
     run_fn env t fn None w"
proof (induction fn arbitrary: b w)
  case (DoQuery q k)
  show ?case
    using DoQuery.IH
    by (cases "TransactionImplementation_query env t q w") (simp add: spend_def)
next
  case (DoQueryStream q k)
  show ?case
    using DoQueryStream.IH
    by (cases "TransactionImplementation_queryStream env t q w") (simp add: spend_def)
next
  case (DoNext g k)
  show ?case
    using DoNext.IH
    by (cases "transactionalQueryStream_next env g w") (simp add: spend_def)
next
  case (DoReturn g k)
  show ?case
    using DoReturn.IH
    by (cases "transactionalQueryStream_return g w") (simp add: spend_def)
next
  case (DoThrow e g k)
  show ?case
    using DoThrow.IH
    by (cases "transactionalQueryStream_throw e g w") (simp add: spend_def)
qed simp_all

lemma releases_append: "releases c (es @ es') = releases c es + releases c es'"
  by (induction es) (simp_all add: releases_def)


lemmas calls = calls0 controller_abort_def emit_def

lemmas evals = tx_def tx_try_def tx_setup_def race_def tx_catch_def onReleaseTimeout_def
  new_AbortController_def new_TransactionImplementation_def
  TransactionImplementation_query_def TransactionImplementation_queryStream_def
  settle_def spend_def calls Transaction_aborted_def test_env_def refusing_env_def initial_def
  await_def test_fn_def late_fn_def

subsection \<open>One-shot queries\<close>

text \<open>
  C8. Once the pool has granted a connection and the audit hook has returned, a one-shot
  query has made exactly four calls, in this order: acquire, audit, dispatch, release.
  It fulfils with the rows the driver returned, or rejects with the very error the
  driver threw; the release is there in both cases.
\<close>

theorem query_one_shot:
  assumes "pool_grants env (trace w) = Fulfilled c"
    and "hook_throws env (trace w @ [GetConnection]) q = None"
  shows "query env q w =
     ((case driver_query env (trace w @ [GetConnection, OnQuery q]) c q of
         Inr rs \<Rightarrow> Fulfilled rs
       | Inl e \<Rightarrow> Rejected e),
      w\<lparr>trace := trace w @ [GetConnection, OnQuery q, ConnQuery c q, Release c]\<rparr>)"
  using assms by (simp add: query_def calls settle_def)

theorem query_one_shot_witness:
  "pool_grants test_env (trace initial) = Fulfilled 7
   \<and> hook_throws test_env (trace initial @ [GetConnection]) ''SELECT 1 + 1 as foo'' = None
   \<and> query test_env ''SELECT 1 + 1 as foo'' initial =
     (Fulfilled [2],
      initial\<lparr>trace := [GetConnection, OnQuery ''SELECT 1 + 1 as foo'',
         ConnQuery 7 ''SELECT 1 + 1 as foo'', Release 7]\<rparr>)
   \<and> query test_env ''SELECT * FRM'' initial =
     (Rejected (Error ''SQLITE_ERROR''),
      initial\<lparr>trace := [GetConnection, OnQuery ''SELECT * FRM'',
         ConnQuery 7 ''SELECT * FRM'', Release 7]\<rparr>)"
  using query_one_shot [of test_env initial 7 "''SELECT 1 + 1 as foo''"]
    query_one_shot [of test_env initial 7 "''SELECT * FRM''"]
  by (simp add: test_env_def initial_def)

subsection \<open>Transactions\<close>

lemma tx_setup_Inr:
  assumes "tx_setup env c w = (Inr (t, k), w1)"
  shows "controller w1 c = Some k" and "t = transactions w" and "k = controllers w"
    and "transaction w1 = (transaction w)(t := \<lparr>connection = c, aborted = False\<rparr>)"
    and "trace w1 = trace w @ [ConnQuery c ''BEGIN'']"
  using assms
  by (auto simp: tx_setup_def calls new_AbortController_def new_TransactionImplementation_def
      split: sum.splits)

lemma onReleaseTimeout_aborts:
  "controller w c = Some k \<Longrightarrow>
     onReleaseTimeout c w =
       w\<lparr>trace := trace w @ [Abort k, Dispose c],
         signal_aborted := (signal_aborted w)(k := True)\<rparr>"
  by (simp add: onReleaseTimeout_def calls)

lemma race_timeout:
  assumes "controller w c = Some k" and "run_fn env t fn (Some n) w = (Pending, w2)"
  shows "race env c t k fn (Some n) w =
     ((case abort_reaction (suspended env t fn (Some n) w) of
         Some r \<Rightarrow> settle r
       | None \<Rightarrow> Rejected Transaction_aborted),
      w2\<lparr>trace := trace w2 @ [Abort k, Dispose c],
         signal_aborted := (signal_aborted w2)(k := True)\<rparr>)"
proof -
  have "only_trace w w2"
    using run_fn_only_trace [of w env t fn "Some n"] assms(2) by simp
  then have "controller w2 c = Some k"
    using assms(1) by (simp add: only_trace_fields)
  then show ?thesis
    using assms(2) by (simp add: race_def onReleaseTimeout_aborts split: option.splits)
qed

lemma tx_rejected:
  assumes "pool_grants env (trace w) = Fulfilled c"
    and "tx_try env c fn b (emit GetConnection w) = (Rejected e, w2)"
  shows "tx env fn b w =
     (Rejected e, w2\<lparr>trace := trace w2 @ [ConnQuery c ''ROLLBACK'', Release c]\<rparr>)"
  using assms
  by (simp add: tx_def tx_catch_def getConnection_def release_def
      connection_query_def emit_def split: sum.splits)

lemma tx_try_timeout:
  assumes "tx_setup env c (emit GetConnection w) = (Inr (t, k), w1)"
    and "run_fn env t fn (Some n) w1 = (Pending, w2)"
  shows "tx_try env c fn (Some n) (emit GetConnection w) =
     (case race env c t k fn (Some n) w1 of
        (Pending, w3) \<Rightarrow> (Pending, w3)
      | (Rejected e, w3) \<Rightarrow> (Rejected e, w3)
      | (Fulfilled v, w3) \<Rightarrow>
          (case connection_query env c ''COMMIT'' w3 of
             (Inl e, w4) \<Rightarrow> (Rejected e, w4)
           | (Inr _, w4) \<Rightarrow> (Fulfilled v, w4)))"
    and "race env c t k fn (Some n) w1 =
     ((case abort_reaction (suspended env t fn (Some n) w1) of
         Some r \<Rightarrow> settle r
       | None \<Rightarrow> Rejected Transaction_aborted),
      w2\<lparr>trace := trace w2 @ [Abort k, Dispose c],
         signal_aborted := (signal_aborted w2)(k := True)\<rparr>)"
proof -
  show "tx_try env c fn (Some n) (emit GetConnection w) =
     (case race env c t k fn (Some n) w1 of
        (Pending, w3) \<Rightarrow> (Pending, w3)
      | (Rejected e, w3) \<Rightarrow> (Rejected e, w3)
      | (Fulfilled v, w3) \<Rightarrow>
          (case connection_query env c ''COMMIT'' w3 of
             (Inl e, w4) \<Rightarrow> (Rejected e, w4)
           | (Inr _, w4) \<Rightarrow> (Fulfilled v, w4)))"
    using assms(1) by (simp add: tx_try_def)
  have "controller w1 c = Some k"
    using assms(1) by (rule tx_setup_Inr)
  then show "race env c t k fn (Some n) w1 =
     ((case abort_reaction (suspended env t fn (Some n) w1) of
         Some r \<Rightarrow> settle r
       | None \<Rightarrow> Rejected Transaction_aborted),
      w2\<lparr>trace := trace w2 @ [Abort k, Dispose c],
         signal_aborted := (signal_aborted w2)(k := True)\<rparr>)"
    using assms(2) by (rule race_timeout)
qed

lemma tx_aborted:
  assumes "pool_grants env (trace w) = Fulfilled c"
    and "tx_setup env c (emit GetConnection w) = (Inr (t, k), w1)"
    and "run_fn env t fn (Some n) w1 = (Pending, w2)"
    and "abort_reaction (suspended env t fn (Some n) w1) = None"
  shows "tx env fn (Some n) w =
     (Rejected Transaction_aborted,
      w2\<lparr>trace := trace w2 @ [Abort k, Dispose c, ConnQuery c ''ROLLBACK'', Release c],
         signal_aborted := (signal_aborted w2)(k := True)\<rparr>)"
proof -
  have "tx_try env c fn (Some n) (emit GetConnection w) =
     (Rejected Transaction_aborted,
      w2\<lparr>trace := trace w2 @ [Abort k, Dispose c],
         signal_aborted := (signal_aborted w2)(k := True)\<rparr>)"
    using tx_try_timeout [OF assms(2,3)] assms(4) by simp
  from tx_rejected [OF assms(1) this] show ?thesis by simp
qed

lemma tx_abort_listener_rejects:
  assumes "pool_grants env (trace w) = Fulfilled c"
    and "tx_setup env c (emit GetConnection w) = (Inr (t, k), w1)"
    and "run_fn env t fn (Some n) w1 = (Pending, w2)"
    and "abort_reaction (suspended env t fn (Some n) w1) = Some (Inl e)"
  shows "tx env fn (Some n) w =
     (Rejected e,
      w2\<lparr>trace := trace w2 @ [Abort k, Dispose c, ConnQuery c ''ROLLBACK'', Release c],
         signal_aborted := (signal_aborted w2)(k := True)\<rparr>)"
proof -
  have "tx_try env c fn (Some n) (emit GetConnection w) =
     (Rejected e,
      w2\<lparr>trace := trace w2 @ [Abort k, Dispose c],
         signal_aborted := (signal_aborted w2)(k := True)\<rparr>)"
    using tx_try_timeout [OF assms(2,3)] assms(4) by (simp add: settle_def)
  from tx_rejected [OF assms(1) this] show ?thesis by simp
qed

lemma tx_abort_listener_fulfils:
  assumes "pool_grants env (trace w) = Fulfilled c"
    and "tx_setup env c (emit GetConnection w) = (Inr (t, k), w1)"
    and "run_fn env t fn (Some n) w1 = (Pending, w2)"
    and "abort_reaction (suspended env t fn (Some n) w1) = Some (Inr v)"
  shows "tx env fn (Some n) w =
     (case driver_query env (trace w2 @ [Abort k, Dispose c]) c ''COMMIT'' of
        Inr rs \<Rightarrow>
          (Fulfilled v,
           w2\<lparr>trace := trace w2 @ [Abort k, Dispose c, ConnQuery c ''COMMIT'', Release c],
              signal_aborted := (signal_aborted w2)(k := True)\<rparr>)
      | Inl e \<Rightarrow>
          (Rejected e,
           w2\<lparr>trace := trace w2 @
                [Abort k, Dispose c, ConnQuery c ''COMMIT'', ConnQuery c ''ROLLBACK'',
                 Release c],
              signal_aborted := (signal_aborted w2)(k := True)\<rparr>))"
  using tx_try_timeout [OF assms(2,3)] assms(1,4)
  by (simp add: tx_def tx_catch_def getConnection_def release_def connection_query_def
      emit_def settle_def split: sum.splits)

text \<open>
  C4. With a connection granted, every way the \<^verbatim>\<open>try\<close> block can fail ends the same
  way: \<^verbatim>\<open>BEGIN\<close> refused by the driver, the function rejecting, the release timeout
  coming due while the function is unsettled (the abort side then rejects, unless the
  function's own listener on the abort event settles it first: with an error, which is
  then the failure, or with a value, after which a refused \<^verbatim>\<open>COMMIT\<close> is), and
  \<^verbatim>\<open>COMMIT\<close> refused by the driver. The next call is \<^verbatim>\<open>ROLLBACK\<close> on the same
  connection, then the release, and \<^verbatim>\<open>tx\<close> rejects with the error that made the block
  fail. Nothing is assumed of what the driver answers to \<^verbatim>\<open>ROLLBACK\<close>: an error it
  throws there changes neither the calls nor the result.
\<close>

theorem tx_failure_rolls_back:
  assumes "pool_grants env (trace w) = Fulfilled c"
  shows
    "(driver_query env (trace w @ [GetConnection]) c ''BEGIN'' = Inl e \<longrightarrow>
        tx env fn b w =
          (Rejected e,
           w\<lparr>trace := trace w @
             [GetConnection, ConnQuery c ''BEGIN'', ConnQuery c ''ROLLBACK'', Release c]\<rparr>))
     \<and> (tx_setup env c (emit GetConnection w) = (Inr (t, k), w1) \<longrightarrow>
          (run_fn env t fn b w1 = (Rejected e, w2) \<longrightarrow>
             tx env fn b w =
               (Rejected e, w2\<lparr>trace := trace w2 @ [ConnQuery c ''ROLLBACK'', Release c]\<rparr>))
        \<and> (run_fn env t fn (Some n) w1 = (Pending, w2) \<longrightarrow>
             abort_reaction (suspended env t fn (Some n) w1) = None \<longrightarrow>
             tx env fn (Some n) w =
               (Rejected Transaction_aborted,
                w2\<lparr>trace := trace w2 @
                     [Abort k, Dispose c, ConnQuery c ''ROLLBACK'', Release c],
                   signal_aborted := (signal_aborted w2)(k := True)\<rparr>))
        \<and> (run_fn env t fn (Some n) w1 = (Pending, w2) \<longrightarrow>
             abort_reaction (suspended env t fn (Some n) w1) = Some (Inl e) \<longrightarrow>
             tx env fn (Some n) w =
               (Rejected e,
                w2\<lparr>trace := trace w2 @
                     [Abort k, Dispose c, ConnQuery c ''ROLLBACK'', Release c],
                   signal_aborted := (signal_aborted w2)(k := True)\<rparr>))
        \<and> (run_fn env t fn (Some n) w1 = (Pending, w2) \<longrightarrow>
             abort_reaction (suspended env t fn (Some n) w1) = Some (Inr v) \<longrightarrow>
             driver_query env (trace w2 @ [Abort k, Dispose c]) c ''COMMIT'' = Inl e \<longrightarrow>
             tx env fn (Some n) w =
               (Rejected e,
                w2\<lparr>trace := trace w2 @
                     [Abort k, Dispose c, ConnQuery c ''COMMIT'', ConnQuery c ''ROLLBACK'',
                      Release c],
                   signal_aborted := (signal_aborted w2)(k := True)\<rparr>))
        \<and> (run_fn env t fn b w1 = (Fulfilled v, w2) \<longrightarrow>
             driver_query env (trace w2) c ''COMMIT'' = Inl e \<longrightarrow>
             tx env fn b w =
               (Rejected e,
                w2\<lparr>trace := trace w2 @
                  [ConnQuery c ''COMMIT'', ConnQuery c ''ROLLBACK'', Release c]\<rparr>)))"
proof -
  have begin_fails: "tx env fn b w =
          (Rejected e,
           w\<lparr>trace := trace w @
             [GetConnection, ConnQuery c ''BEGIN'', ConnQuery c ''ROLLBACK'', Release c]\<rparr>)"
    if "driver_query env (trace w @ [GetConnection]) c ''BEGIN'' = Inl e"
  proof -
    have "tx_try env c fn b (emit GetConnection w) =
        (Rejected e, w\<lparr>trace := trace w @ [GetConnection, ConnQuery c ''BEGIN'']\<rparr>)"
      using that by (simp add: tx_try_def tx_setup_def connection_query_def emit_def)
    from tx_rejected [OF assms this] show ?thesis by simp
  qed
  have rejects: "tx env fn b w =
       (Rejected e, w2\<lparr>trace := trace w2 @ [ConnQuery c ''ROLLBACK'', Release c]\<rparr>)"
    if "tx_setup env c (emit GetConnection w) = (Inr (t, k), w1)"
      and "run_fn env t fn b w1 = (Rejected e, w2)"
  proof -
    have "tx_try env c fn b (emit GetConnection w) = (Rejected e, w2)"
      using that by (simp add: tx_try_def race_def)
    from tx_rejected [OF assms this] show ?thesis by simp
  qed
  have commit: "tx env fn b w =
       (Rejected e,
        w2\<lparr>trace := trace w2 @
          [ConnQuery c ''COMMIT'', ConnQuery c ''ROLLBACK'', Release c]\<rparr>)"
    if "tx_setup env c (emit GetConnection w) = (Inr (t, k), w1)"
      and "run_fn env t fn b w1 = (Fulfilled v, w2)"
      and "driver_query env (trace w2) c ''COMMIT'' = Inl e"
  proof -
    have "tx_try env c fn b (emit GetConnection w) =
        (Rejected e, w2\<lparr>trace := trace w2 @ [ConnQuery c ''COMMIT'']\<rparr>)"
      using that by (simp add: tx_try_def race_def connection_query_def emit_def)
    from tx_rejected [OF assms this] show ?thesis by simp
  qed
  have late_commit: "tx env fn (Some n) w =
       (Rejected e,
        w2\<lparr>trace := trace w2 @
             [Abort k, Dispose c, ConnQuery c ''COMMIT'', ConnQuery c ''ROLLBACK'',
              Release c],
           signal_aborted := (signal_aborted w2)(k := True)\<rparr>)"
    if "tx_setup env c (emit GetConnection w) = (Inr (t, k), w1)"
      and "run_fn env t fn (Some n) w1 = (Pending, w2)"
      and "abort_reaction (suspended env t fn (Some n) w1) = Some (Inr v)"
      and "driver_query env (trace w2 @ [Abort k, Dispose c]) c ''COMMIT'' = Inl e"
    using tx_abort_listener_fulfils [OF assms that(1,2,3)] that(4) by simp
  show ?thesis
    using begin_fails rejects commit late_commit tx_aborted [OF assms]
      tx_abort_listener_rejects [OF assms]
    by blast
qed

theorem tx_failure_rolls_back_witness:
  "pool_grants refusing_env (trace initial) = Fulfilled 7
   \<and> fst (tx_setup refusing_env 7 (emit GetConnection initial)) = Inr (0, 0)
   \<and> fst (tx_setup test_env 7 (emit GetConnection initial)) = Inr (0, 0)
   \<and> driver_query test_env (trace (emit (Dispose 7) initial) @ [GetConnection]) 7 ''BEGIN'' =
       Inl (Error ''disposed'')
   \<and> abort_reaction (suspended test_env 0 (NeverSettles :: (nat, nat) user_fn) (Some 3)
        (snd (tx_setup test_env 7 (emit GetConnection initial)))) = None
   \<and> abort_reaction
        (suspended test_env 0 (OnAbort (Inl (Error ''boom'')) :: (nat, nat) user_fn) (Some 3)
           (snd (tx_setup test_env 7 (emit GetConnection initial)))) =
       Some (Inl (Error ''boom''))
   \<and> fst (tx refusing_env (Rejects (Error ''boom'') :: (nat, nat) user_fn) None initial) =
     Rejected (Error ''boom'')
   \<and> trace (snd (tx refusing_env (Rejects (Error ''boom'') :: (nat, nat) user_fn) None initial)) =
       [GetConnection, ConnQuery 7 ''BEGIN'', ConnQuery 7 ''ROLLBACK'', Release 7]
   \<and> driver_query refusing_env [GetConnection, ConnQuery 7 ''BEGIN''] 7 ''ROLLBACK'' =
       Inl (Error ''cannot ROLLBACK'')
   \<and> fst (tx refusing_env (Resolves 5 :: (nat, nat) user_fn) None initial) =
       Rejected (Error ''cannot COMMIT'')
   \<and> trace (snd (tx refusing_env (Resolves 5 :: (nat, nat) user_fn) None initial)) =
       [GetConnection, ConnQuery 7 ''BEGIN'', ConnQuery 7 ''COMMIT'', ConnQuery 7 ''ROLLBACK'',
        Release 7]
   \<and> fst (tx test_env (Resolves 5 :: (nat, nat) user_fn) None (emit (Dispose 7) initial)) =
       Rejected (Error ''disposed'')
   \<and> trace (snd (tx test_env (Resolves 5 :: (nat, nat) user_fn) None (emit (Dispose 7) initial))) =
       [Dispose 7, GetConnection, ConnQuery 7 ''BEGIN'', ConnQuery 7 ''ROLLBACK'', Release 7]
   \<and> fst (tx test_env (NeverSettles :: (nat, nat) user_fn) (Some 3) initial) =
       Rejected (Error ''Transaction aborted'')
   \<and> trace (snd (tx test_env (NeverSettles :: (nat, nat) user_fn) (Some 3) initial)) =
       [GetConnection, ConnQuery 7 ''BEGIN'', Abort 0, Dispose 7, ConnQuery 7 ''ROLLBACK'',
        Release 7]
   \<and> fst (tx test_env (OnAbort (Inl (Error ''boom'')) :: (nat, nat) user_fn) (Some 3) initial) =
       Rejected (Error ''boom'')
   \<and> trace (snd (tx test_env (OnAbort (Inl (Error ''boom'')) :: (nat, nat) user_fn) (Some 3)
        initial)) =
       [GetConnection, ConnQuery 7 ''BEGIN'', Abort 0, Dispose 7, ConnQuery 7 ''ROLLBACK'',
        Release 7]
   \<and> fst (tx test_env (OnAbort (Inr 5) :: (nat, nat) user_fn) (Some 3) initial) =
       Rejected (Error ''disposed'')
   \<and> trace (snd (tx test_env (OnAbort (Inr 5) :: (nat, nat) user_fn) (Some 3) initial)) =
       [GetConnection, ConnQuery 7 ''BEGIN'', Abort 0, Dispose 7, ConnQuery 7 ''COMMIT'',
        ConnQuery 7 ''ROLLBACK'', Release 7]"
  using tx_failure_rolls_back [of refusing_env initial 7 "Error ''boom''"
      "Rejects (Error ''boom'') :: (nat, nat) user_fn" None 0 0
      "snd (tx_setup refusing_env 7 (emit GetConnection initial))"
      "snd (tx_setup refusing_env 7 (emit GetConnection initial))" 0 5]
    tx_failure_rolls_back [of refusing_env initial 7 "Error ''cannot COMMIT''"
      "Resolves 5 :: (nat, nat) user_fn" None 0 0
      "snd (tx_setup refusing_env 7 (emit GetConnection initial))"
      "snd (tx_setup refusing_env 7 (emit GetConnection initial))" 0 5]
    tx_failure_rolls_back [of test_env "emit (Dispose 7) initial" 7 "Error ''disposed''"
      "Resolves 5 :: (nat, nat) user_fn" None 0 0 initial initial 0 5]
    tx_failure_rolls_back [of test_env initial 7 "Error ''boom''"
      "NeverSettles :: (nat, nat) user_fn" "Some 3" 0 0
      "snd (tx_setup test_env 7 (emit GetConnection initial))"
      "snd (tx_setup test_env 7 (emit GetConnection initial))" 3 5]
    tx_failure_rolls_back [of test_env initial 7 "Error ''boom''"
      "OnAbort (Inl (Error ''boom'')) :: (nat, nat) user_fn" "Some 3" 0 0
      "snd (tx_setup test_env 7 (emit GetConnection initial))"
      "snd (tx_setup test_env 7 (emit GetConnection initial))" 3 5]
    tx_failure_rolls_back [of test_env initial 7 "Error ''disposed''"
      "OnAbort (Inr 5) :: (nat, nat) user_fn" "Some 3" 0 0
      "snd (tx_setup test_env 7 (emit GetConnection initial))"
      "snd (tx_setup test_env 7 (emit GetConnection initial))" 3 5]
  by (simp add: evals)

text \<open>
  C7. When the pool has granted a connection, \<^verbatim>\<open>BEGIN\<close> has succeeded and the function
  has returned \<open>v\<close> before any release timeout, the next call \<^verbatim>\<open>tx\<close> makes is \<^verbatim>\<open>COMMIT\<close>
  on that connection and the last one is the release of that connection. When the driver
  accepts the \<^verbatim>\<open>COMMIT\<close>, nothing comes in between and \<^verbatim>\<open>tx\<close> fulfils with \<open>v\<close>; a
  \<^verbatim>\<open>COMMIT\<close> the driver refuses is a failure of the transaction, handled as one.
\<close>

theorem tx_commits:
  assumes "pool_grants env (trace w) = Fulfilled c"
    and "tx_setup env c (emit GetConnection w) = (Inr (t, k), w1)"
    and "run_fn env t fn b w1 = (Fulfilled v, w2)"
  shows "tx env fn b w =
     (case driver_query env (trace w2) c ''COMMIT'' of
        Inr rs \<Rightarrow>
          (Fulfilled v, w2\<lparr>trace := trace w2 @ [ConnQuery c ''COMMIT'', Release c]\<rparr>)
      | Inl e \<Rightarrow>
          (Rejected e,
           w2\<lparr>trace := trace w2 @
             [ConnQuery c ''COMMIT'', ConnQuery c ''ROLLBACK'', Release c]\<rparr>))"
  using assms
  by (simp add: tx_def tx_try_def race_def tx_catch_def getConnection_def release_def
      connection_query_def emit_def split: sum.splits)

theorem tx_commits_witness:
  "pool_grants test_env (trace initial) = Fulfilled 7
   \<and> fst (tx_setup test_env 7 (emit GetConnection initial)) = Inr (0, 0)
   \<and> fst (run_fn test_env 0 test_fn None (snd (tx_setup test_env 7 (emit GetConnection initial))))
       = Fulfilled ([42], [3])
   \<and> fst (tx test_env test_fn None initial) = Fulfilled ([42], [3])
   \<and> trace (snd (tx test_env test_fn None initial)) =
       [GetConnection, ConnQuery 7 ''BEGIN'',
        OnQuery ''SELECT 1 + 41 as foo'', ConnQuery 7 ''SELECT 1 + 41 as foo'',
        OnQuery ''SELECT 1 + 2 as bar'', ConnQuery 7 ''SELECT 1 + 2 as bar'',
        ConnQuery 7 ''COMMIT'', Release 7]"
  using tx_commits [of test_env initial 7 0 0
      "snd (tx_setup test_env 7 (emit GetConnection initial))" test_fn None "([42], [3])"
      "snd (run_fn test_env 0 test_fn None
         (snd (tx_setup test_env 7 (emit GetConnection initial))))"]
  by (simp add: evals)




subsection \<open>The flag of a transaction\<close>

lemma onReleaseTimeout_transaction: "transaction (onReleaseTimeout c w) = transaction w"
  by (simp add: onReleaseTimeout_def calls split: option.splits)

lemma race_transaction: "transaction (snd (race env c t k fn b w)) = transaction w"
proof -
  have "transaction (snd (run_fn env t fn b w)) = transaction w"
    using run_fn_only_trace [of w env t fn b] by (simp add: only_trace_fields)
  then show ?thesis
    by (cases "run_fn env t fn b w")
      (auto simp: race_def Let_def onReleaseTimeout_transaction
        split: promise.splits option.splits)
qed

lemma tx_setup_flags:
  assumes "\<And>t. \<not> aborted (transaction w t)"
  shows "\<not> aborted (transaction (snd (tx_setup env c w)) t)"
  using assms
  by (auto simp: tx_setup_def calls new_AbortController_def new_TransactionImplementation_def
      split: sum.splits)

lemma tx_try_flags:
  assumes "\<And>t. \<not> aborted (transaction w t)"
  shows "\<not> aborted (transaction (snd (tx_try env c fn b w)) t)"
proof (cases "tx_setup env c w")
  case (Pair r w1)
  have w1: "\<not> aborted (transaction w1 t)" for t
    using tx_setup_flags [of w env c t] assms Pair by simp
  show ?thesis
  proof (cases r)
    case (Inl e)
    then show ?thesis using Pair w1 by (simp add: tx_try_def)
  next
    case (Inr tk)
    obtain t' k where tk: "tk = (t', k)" by (cases tk)
    have "transaction (snd (race env c t' k fn b w1)) = transaction w1"
      by (rule race_transaction)
    then show ?thesis
      using Pair Inr tk w1
      by (cases "race env c t' k fn b w1")
        (auto simp: tx_try_def calls split: promise.splits sum.splits)
  qed
qed

lemma tx_flags:
  assumes "\<And>t. \<not> aborted (transaction w t)"
  shows "\<not> aborted (transaction (snd (tx env fn b w)) t)"
proof (cases "pool_grants env (trace w)")
  case (Fulfilled c)
  have "\<not> aborted (transaction (emit GetConnection w) t)" for t
    using assms by (simp add: emit_def)
  then have "\<not> aborted (transaction (snd (tx_try env c fn b (emit GetConnection w))) t)"
    by (rule tx_try_flags)
  then show ?thesis
    using Fulfilled
    by (cases "tx_try env c fn b (emit GetConnection w)")
      (auto simp: tx_def tx_catch_def calls split: promise.splits sum.splits)
next
  case (Rejected e)
  then show ?thesis using assms by (simp add: tx_def calls)
next
  case Pending
  then show ?thesis using assms by (simp add: tx_def calls)
qed

lemma run_op_flags:
  assumes "\<And>t. \<not> aborted (transaction w t)"
  shows "\<not> aborted (transaction (run_op env x w) t)"
proof (cases x)
  case (CallTx fn b)
  then show ?thesis using tx_flags [of w env fn b t] assms by simp
next
  case (ReleaseTimeout c)
  then show ?thesis using assms by (simp add: onReleaseTimeout_transaction)
next
  case (CloseConnection c)
  then show ?thesis using assms by (simp add: closeConnection_def calls)
next
  case (CallQuery q)
  then show ?thesis
    using assms query_only_trace [of w env q] by (simp add: only_trace_fields)
next
  case (CallQueryStream q)
  then show ?thesis
    using assms queryStream_only_trace [of w env q] by (simp add: only_trace_fields)
next
  case (CallNext g)
  then show ?thesis
    using assms queryStream_next_only_trace [of w env g] by (simp add: only_trace_fields)
next
  case (CallReturn g)
  then show ?thesis
    using assms queryStream_return_only_trace [of w g] by (simp add: only_trace_fields)
next
  case (CallThrow e g)
  then show ?thesis
    using assms queryStream_throw_only_trace [of w e g] by (simp add: only_trace_fields)
next
  case (TxQuery t' q)
  then show ?thesis
    using assms TransactionImplementation_query_only_trace [of w env t' q]
    by (simp add: only_trace_fields)
next
  case (TxQueryStream t' q)
  then show ?thesis
    using assms TransactionImplementation_queryStream_only_trace [of w env t' q]
    by (simp add: only_trace_fields)
next
  case (TxNext g)
  then show ?thesis
    using assms transactionalQueryStream_next_only_trace [of w env g]
    by (simp add: only_trace_fields)
next
  case (TxReturn g)
  then show ?thesis using assms by (simp add: transactionalQueryStream_return_def)
next
  case (TxThrow e g)
  then show ?thesis using assms by (simp add: transactionalQueryStream_throw_def)
qed

lemma run_ops_flags:
  "(\<And>t. \<not> aborted (transaction w t)) \<Longrightarrow> \<not> aborted (transaction (run_ops env xs w) t)"
proof (induction xs arbitrary: w t)
  case Nil
  then show ?case by simp
next
  case (Cons x xs)
  have "\<not> aborted (transaction (run_op env x w) t')" for t'
    using Cons.prems by (rule run_op_flags)
  then show ?case using Cons.IH by simp
qed

text \<open>
  C10. Whatever calls are made on a pool, in whatever order, no transaction ever has its
  \<^verbatim>\<open>aborted\<close> field set; the release-timeout hook leaves every transaction as it was.
  So from every state the layer can reach, the guard of the transaction-scoped \<^verbatim>\<open>query\<close>
  is not taken (the call goes on to the audit and the driver) and the guard of the
  transaction-scoped stream is not taken (a row the driver has is yielded). The other
  place that makes this error is the race in \<^verbatim>\<open>tx\<close>.
\<close>

theorem aborted_stays_false:
  "\<not> aborted (transaction (run_ops env xs initial) t)
   \<and> TransactionImplementation_query env t q (run_ops env xs initial) =
       (case onQuery env q (run_ops env xs initial) of
          (Some e, w1) \<Rightarrow> (Rejected e, w1)
        | (None, w1) \<Rightarrow>
            (case connection_query env (connection (transaction w1 t)) q w1 of
               (res, w2) \<Rightarrow> (settle res, w2)))
   \<and> transactional_loop t (Row r rest) (run_ops env xs initial) = (Yield r, TYield t rest)
   \<and> transaction (onReleaseTimeout c w) = transaction w"
proof -
  have "\<not> aborted (transaction (run_ops env xs initial) t')" for t'
    by (rule run_ops_flags) (simp add: initial_def)
  then show ?thesis
    by (simp add: TransactionImplementation_query_def transactional_loop_def
        onReleaseTimeout_transaction)
qed

subsection \<open>Streams\<close>

lemma transactional_step_events:
  "\<exists>es. trace (snd (transactionalQueryStream_next env g w)) = trace w @ es
        \<and> filter is_pool_call es = [] \<and> audits es = 0
        \<and> dispatches es \<le> transactional_unstarted g
        \<and> transactional_unstarted (snd (fst (transactionalQueryStream_next env g w))) = 0"
  by (cases g)
    (auto simp: transactionalQueryStream_next_def transactional_loop_def calls audits_def
      dispatches_def split: rows.splits)

lemma transactional_consume_events:
  "\<exists>es. trace (snd (transactional_consume env cs g w)) = trace w @ es
        \<and> filter is_pool_call es = [] \<and> audits es = 0
        \<and> dispatches es \<le> transactional_unstarted g"
proof (induction cs arbitrary: g w)
  case Nil
  show ?case by (simp add: audits_def dispatches_def)
next
  case (Cons x cs)
  show ?case
  proof (cases x)
    case Next
    obtain s g1 w1 where st: "transactionalQueryStream_next env g w = ((s, g1), w1)"
      by (metis prod.exhaust)
    obtain es1 where es1: "trace w1 = trace w @ es1" "filter is_pool_call es1 = []"
      "audits es1 = 0" "dispatches es1 \<le> transactional_unstarted g"
      "transactional_unstarted g1 = 0"
      using transactional_step_events [of env g w] st by auto
    obtain es2 where es2: "trace (snd (transactional_consume env cs g1 w1)) = trace w1 @ es2"
      "filter is_pool_call es2 = []" "audits es2 = 0"
      "dispatches es2 \<le> transactional_unstarted g1"
      using Cons.IH [of g1 w1] by auto
    have "trace (snd (transactional_consume env (x # cs) g w)) = trace w @ (es1 @ es2)"
      using Next st es1(1) es2(1) by simp
    moreover have "filter is_pool_call (es1 @ es2) = []" "audits (es1 @ es2) = 0"
      "dispatches (es1 @ es2) \<le> transactional_unstarted g"
      using es1 es2 by (simp_all add: audits_def dispatches_def)
    ultimately show ?thesis by blast
  next
    case Return
    obtain es2 where es2:
      "trace (snd (transactional_consume env cs TCompleted w)) = trace w @ es2"
      "filter is_pool_call es2 = []" "audits es2 = 0"
      "dispatches es2 \<le> transactional_unstarted (TCompleted :: 'a tgen)"
      using Cons.IH [of TCompleted w] by auto
    then show ?thesis
      using Return by (auto simp: transactionalQueryStream_return_def)
  next
    case (Throw e)
    obtain es2 where es2:
      "trace (snd (transactional_consume env cs TCompleted w)) = trace w @ es2"
      "filter is_pool_call es2 = []" "audits es2 = 0"
      "dispatches es2 \<le> transactional_unstarted (TCompleted :: 'a tgen)"
      using Cons.IH [of TCompleted w] by auto
    then show ?thesis
      using Throw by (auto simp: transactionalQueryStream_throw_def)
  qed
qed

lemma transactional_session_events:
  "\<exists>es. trace (transactional_session env t q cs w) = trace w @ OnQuery q # es
        \<and> filter is_pool_call es = [] \<and> audits es = 0 \<and> dispatches es \<le> 1"
proof (cases "hook_throws env (trace w) q")
  case None
  obtain es where es:
    "trace (snd (transactional_consume env cs (TStart t q) (emit (OnQuery q) w))) =
       trace (emit (OnQuery q) w) @ es"
    "filter is_pool_call es = []" "audits es = 0"
    "dispatches es \<le> transactional_unstarted (TStart t q :: 'a tgen)"
    using transactional_consume_events [of env cs "TStart t q" "emit (OnQuery q) w"] by auto
  then show ?thesis
    using None
    by (auto simp: transactional_session_def TransactionImplementation_queryStream_def
        onQuery_def emit_def)
next
  case (Some e)
  then show ?thesis
    by (simp add: transactional_session_def TransactionImplementation_queryStream_def
        onQuery_def emit_def audits_def dispatches_def)
qed

text \<open>
  C9. A transaction-scoped stream, from the call that makes it to the last call of its
  consumer, never calls the pool: no acquire, no release. Its first \<^verbatim>\<open>next()\<close> calls
  \<^verbatim>\<open>queryStream\<close> on the connection of the transaction and then behaves as any later
  one. Every \<^verbatim>\<open>next()\<close> that finds a row waiting in the driver's sequence reads the flag
  of the transaction before it yields: with the flag clear it yields that row and keeps
  the rest, with the flag set it raises "Transaction aborted" and the generator is
  finished, the waiting rows dropped. The end of the driver's sequence ends the stream
  and an error of the driver is passed on, whatever the flag.
\<close>

theorem transactional_stream:
  "filter is_pool_call (since w (transactional_session env t q cs w)) = []
   \<and> transactionalQueryStream_next env (TStart t q) w =
       transactionalQueryStream_next env
         (TYield t (driver_rows env (trace w) (connection (transaction w t)) q))
         (w\<lparr>trace := trace w @ [ConnQueryStream (connection (transaction w t)) q]\<rparr>)
   \<and> transactionalQueryStream_next env (TYield t (Row r rest)) w =
       ((if aborted (transaction w t) then (Raise Transaction_aborted, TCompleted)
         else (Yield r, TYield t rest)), w)
   \<and> transactionalQueryStream_next env (TYield t Exhausted) w = ((Done, TCompleted), w)
   \<and> transactionalQueryStream_next env (TYield t (Throws e)) w = ((Raise e, TCompleted), w)
   \<and> transactionalQueryStream_next env TCompleted w = ((Done, TCompleted), w)"
proof -
  obtain es where "trace (transactional_session env t q cs w) = trace w @ OnQuery q # es"
    "filter is_pool_call es = []"
    using transactional_session_events [of env t q cs w] by auto
  then have "filter is_pool_call (since w (transactional_session env t q cs w)) = []"
    by (simp add: since_def)
  moreover have "transactionalQueryStream_next env (TStart t q) w =
       transactionalQueryStream_next env
         (TYield t (driver_rows env (trace w) (connection (transaction w t)) q))
         (w\<lparr>trace := trace w @ [ConnQueryStream (connection (transaction w t)) q]\<rparr>)"
    by (simp add: transactionalQueryStream_next_def transactional_loop_def calls
        split: rows.splits)
  moreover have "transactionalQueryStream_next env (TYield t (Row r rest)) w =
       ((if aborted (transaction w t) then (Raise Transaction_aborted, TCompleted)
         else (Yield r, TYield t rest)), w)"
    by (simp add: transactionalQueryStream_next_def transactional_loop_def)
  moreover have "transactionalQueryStream_next env (TYield t Exhausted) w =
      ((Done, TCompleted), w)"
    "transactionalQueryStream_next env (TYield t (Throws e)) w = ((Raise e, TCompleted), w)"
    "transactionalQueryStream_next env TCompleted w = ((Done, TCompleted), w)"
    by (simp_all add: transactionalQueryStream_next_def transactional_loop_def)
  ultimately show ?thesis by blast
qed

text \<open>
  The stream of the repository's test "streaming", run inside a transaction the layer has
  set up: rows 0 and 1 are yielded in order and row 2 is waiting; had the flag been set,
  the first call would have raised after the dispatch.
\<close>

theorem transactional_stream_witness:
  "\<not> aborted (transaction (snd (tx_setup test_env 7 initial)) 0)
   \<and> fst (transactionalQueryStream_next test_env (TStart 0 ''SELECT * FROM stream_values'')
        (snd (tx_setup test_env 7 initial))) = (Yield 0, TYield 0 (Row 1 (Row 2 Exhausted)))
   \<and> fst (transactionalQueryStream_next test_env (TYield 0 (Row 1 (Row 2 Exhausted)))
        (snd (tx_setup test_env 7 initial))) = (Yield 1, TYield 0 (Row 2 Exhausted))
   \<and> since (snd (tx_setup test_env 7 initial))
        (snd (transactionalQueryStream_next test_env (TStart 0 ''SELECT * FROM stream_values'')
           (snd (tx_setup test_env 7 initial)))) =
       [ConnQueryStream 7 ''SELECT * FROM stream_values'']
   \<and> filter is_pool_call
        (since (snd (tx_setup test_env 7 initial))
           (transactional_session test_env 0 ''SELECT * FROM stream_values''
              [Next, Next, Return] (snd (tx_setup test_env 7 initial)))) = []
   \<and> fst (transactionalQueryStream_next test_env (TStart 0 ''SELECT * FROM stream_values'')
        aborted_world) = (Raise (Error ''Transaction aborted''), TCompleted)"
  using transactional_stream [of "snd (tx_setup test_env 7 initial)" test_env 0
      "''SELECT * FROM stream_values''" "[Next, Next, Return]" 1 "Row 2 Exhausted"
      "Error ''x''"]
    transactional_stream [of aborted_world test_env 0 "''SELECT * FROM stream_values''"
      "[Next, Next, Return]" 0 "Row 1 (Row 2 Exhausted)" "Error ''x''"]
  by (simp add: evals aborted_world_def since_def transactionalQueryStream_next_def
      transactionalQueryStream_return_def transactional_loop_def transactional_session_def)

subsection \<open>The release-timeout hook\<close>

text \<open>
  C1, at a transaction just set up on connection 7: the release-timeout hook aborts
  controller 0 and disposes of connection 7, and the \<^verbatim>\<open>aborted\<close> field of the
  transaction is still false afterwards.
\<close>

theorem onReleaseTimeout_keeps_flag:
  "fst (tx_setup test_env 7 initial) = Inr (0, 0)
   \<and> \<not> aborted (transaction (snd (tx_setup test_env 7 initial)) 0)
   \<and> since (snd (tx_setup test_env 7 initial))
        (onReleaseTimeout 7 (snd (tx_setup test_env 7 initial))) = [Abort 0, Dispose 7]
   \<and> signal_aborted (onReleaseTimeout 7 (snd (tx_setup test_env 7 initial))) 0
   \<and> \<not> aborted (transaction (onReleaseTimeout 7 (snd (tx_setup test_env 7 initial))) 0)"
  by (simp add: evals since_def)

subsection \<open>Calls on a transaction whose flag is set\<close>



subsection \<open>Closing a pool-level stream\<close>

text \<open>
  C6, at a stream closed before its first row was asked for: the pool has granted
  connection 7 to the call, \<^verbatim>\<open>return()\<close> completes the generator without entering
  \<^verbatim>\<open>try\<close>, and no later call on the generator releases the connection.
\<close>

theorem stream_closed_before_first_row:
  "queryStream test_env ''SELECT * FROM stream_values'' initial =
     (Inr (PStart (Fulfilled 7) ''SELECT * FROM stream_values''),
      initial\<lparr>trace := [OnQuery ''SELECT * FROM stream_values'', GetConnection]\<rparr>)
   \<and> queryStream_return (PStart (Fulfilled 7) ''SELECT * FROM stream_values'')
        (initial\<lparr>trace := [OnQuery ''SELECT * FROM stream_values'', GetConnection]\<rparr>) =
       ((Done, PCompleted :: nat pgen),
        initial\<lparr>trace := [OnQuery ''SELECT * FROM stream_values'', GetConnection]\<rparr>)
   \<and> trace (stream_session test_env ''SELECT * FROM stream_values'' [Return, Next, Return] initial) =
       [OnQuery ''SELECT * FROM stream_values'', GetConnection]
   \<and> releases 7
        (trace (stream_session test_env ''SELECT * FROM stream_values'' [Return, Next, Return]
           initial)) = 0"
  by (simp add: stream_session_def queryStream_def queryStream_return_def queryStream_next_def
      calls initial_def test_env_def releases_def)

text \<open>
  Once the first row has been asked for on a granted connection, a stream that reaches
  completion (rows exhausted, driver error, \<^verbatim>\<open>return()\<close> or \<^verbatim>\<open>throw()\<close> at a
  \<^verbatim>\<open>yield\<close>) has released its connection exactly once, whatever is called on it
  afterwards.
\<close>

lemma stream_next_releases:
  "unstarted g = 0 \<Longrightarrow>
     \<exists>es. trace (snd (queryStream_next env g w)) = trace w @ es
        \<and> releases c es + holds (snd (fst (queryStream_next env g w))) c = holds g c
        \<and> unstarted (snd (fst (queryStream_next env g w))) = 0"
  by (cases g)
    (auto simp: queryStream_next_def queryStream_loop_def calls releases_def split: rows.splits)

lemma stream_return_releases:
  "unstarted g = 0 \<Longrightarrow>
     \<exists>es. trace (snd (queryStream_return g w)) = trace w @ es
        \<and> releases c es + holds (snd (fst (queryStream_return g w))) c = holds g c
        \<and> unstarted (snd (fst (queryStream_return g w))) = 0"
  by (cases g) (auto simp: queryStream_return_def calls releases_def)

lemma stream_throw_releases:
  "unstarted g = 0 \<Longrightarrow>
     \<exists>es. trace (snd (queryStream_throw e g w)) = trace w @ es
        \<and> releases c es + holds (snd (fst (queryStream_throw e g w))) c = holds g c
        \<and> unstarted (snd (fst (queryStream_throw e g w))) = 0"
  by (cases g) (auto simp: queryStream_throw_def calls releases_def)

lemma consume_releases:
  "unstarted g = 0 \<Longrightarrow>
     \<exists>es. trace (snd (consume env cs g w)) = trace w @ es
        \<and> releases c es + holds (fst (consume env cs g w)) c = holds g c"
proof (induction cs arbitrary: g w)
  case Nil
  show ?case by (simp add: releases_def)
next
  case (Cons x cs)
  define r where "r = (case x of Next \<Rightarrow> queryStream_next env g w
     | Return \<Rightarrow> queryStream_return g w | Throw e \<Rightarrow> queryStream_throw e g w)"
  obtain s g1 w1 where r: "r = ((s, g1), w1)"
    by (metis prod.exhaust)
  have step: "\<exists>es. trace w1 = trace w @ es \<and> releases c es + holds g1 c = holds g c
     \<and> unstarted g1 = 0"
  proof (cases x)
    case Next
    then show ?thesis
      using stream_next_releases [OF Cons.prems, of env w c] r by (simp add: r_def)
  next
    case Return
    then show ?thesis
      using stream_return_releases [OF Cons.prems, of w c] r by (simp add: r_def)
  next
    case (Throw e)
    then show ?thesis
      using stream_throw_releases [OF Cons.prems, of e w c] r by (simp add: r_def)
  qed
  then obtain es1 where es1: "trace w1 = trace w @ es1"
    "releases c es1 + holds g1 c = holds g c" "unstarted g1 = 0"
    by blast
  obtain es2 where es2: "trace (snd (consume env cs g1 w1)) = trace w1 @ es2"
    "releases c es2 + holds (fst (consume env cs g1 w1)) c = holds g1 c"
    using Cons.IH [OF es1(3), of w1] by blast
  have eq: "consume env (x # cs) g w = consume env cs g1 w1"
    using r by (cases x) (simp_all add: r_def)
  have "trace (snd (consume env (x # cs) g w)) = trace w @ (es1 @ es2)"
    using eq es1(1) es2(1) by simp
  moreover have "releases c (es1 @ es2) + holds (fst (consume env (x # cs) g w)) c = holds g c"
    using eq es1(2) es2(2) by (simp add: releases_append)
  ultimately show ?case by blast
qed

lemma started_stream_releases_once:
  assumes "consume env (Next # cs) (PStart (Fulfilled c) q) w = (PCompleted, w')"
  shows "releases c (since w w') = 1"
proof -
  obtain s g1 w1 where st: "queryStream_next env (PStart (Fulfilled c) q) w = ((s, g1), w1)"
    by (metis prod.exhaust)
  have first: "\<exists>es. trace w1 = trace w @ es \<and> releases c es + holds g1 c = 1
      \<and> unstarted g1 = 0"
    using st
    by (auto simp: queryStream_next_def queryStream_loop_def calls releases_def
        split: rows.splits)
  then obtain es1 where es1: "trace w1 = trace w @ es1" "releases c es1 + holds g1 c = 1"
    "unstarted g1 = 0"
    by blast
  obtain es2 where es2: "trace (snd (consume env cs g1 w1)) = trace w1 @ es2"
    "releases c es2 + holds (fst (consume env cs g1 w1)) c = holds g1 c"
    using consume_releases [OF es1(3), of env cs w1 c] by blast
  have eq: "consume env cs g1 w1 = (PCompleted, w')"
    using assms st by simp
  have "trace w' = trace w @ (es1 @ es2)"
    using eq es1(1) es2(1) by simp
  moreover have "releases c (es1 @ es2) = 1"
    using eq es1(2) es2(2) by (simp add: releases_append)
  ultimately show ?thesis
    by (simp add: since_def)
qed

subsection \<open>The audit hook\<close>

text \<open>
  C2 as stated fails on the statements \<^verbatim>\<open>tx\<close> issues itself: a transaction whose
  function makes no query dispatches \<^verbatim>\<open>BEGIN\<close> and \<^verbatim>\<open>COMMIT\<close> and the audit hook is
  not called at all.
\<close>

theorem control_statements_not_audited:
  "trace (snd (tx test_env (Resolves 5 :: (nat, nat) user_fn) None initial)) =
     [GetConnection, ConnQuery 7 ''BEGIN'', ConnQuery 7 ''COMMIT'', Release 7]
   \<and> dispatches (trace (snd (tx test_env (Resolves 5 :: (nat, nat) user_fn) None initial))) = 2
   \<and> audits (trace (snd (tx test_env (Resolves 5 :: (nat, nat) user_fn) None initial))) = 0"
  by (simp add: evals audits_def dispatches_def)

lemma audit_log_append: "audit_log (es @ es') = audit_log es @ audit_log es'"
  by (simp add: audit_log_def)

lemma audit_log_Cons:
  "audit_log (ev # es) =
     (if is_audit ev \<or> is_dispatch ev then ev # audit_log es else audit_log es)"
  by (simp add: audit_log_def)

lemma audit_log_Nil: "audit_log [] = []"
  by (simp add: audit_log_def)

lemma audit_log_empty: "audits es = 0 \<Longrightarrow> dispatches es = 0 \<Longrightarrow> audit_log es = []"
  by (induction es) (auto simp: audits_def dispatches_def audit_log_def split: if_splits)

lemma query_log:
  "audit_log (since w (snd (query env q w))) =
     (case pool_grants env (trace w) of
        Fulfilled c \<Rightarrow>
          (case hook_throws env (trace w @ [GetConnection]) q of
             None \<Rightarrow> [OnQuery q, ConnQuery c q]
           | Some e \<Rightarrow> [OnQuery q])
      | _ \<Rightarrow> [])"
  by (simp add: query_def calls settle_def since_def audit_log_def
      split: promise.splits option.splits)

lemma TransactionImplementation_query_log:
  "audit_log (since w (snd (TransactionImplementation_query env t q w))) =
     (if aborted (transaction w t) then []
      else (case hook_throws env (trace w) q of
              None \<Rightarrow> [OnQuery q, ConnQuery (connection (transaction w t)) q]
            | Some e \<Rightarrow> [OnQuery q]))"
  by (simp add: TransactionImplementation_query_def calls settle_def since_def audit_log_def
      split: option.splits)

lemma stream_step_events:
  "\<exists>es. trace (snd (queryStream_next env g w)) = trace w @ es
        \<and> audits es = 0 \<and> dispatches es \<le> unstarted g
        \<and> unstarted (snd (fst (queryStream_next env g w))) = 0"
  "\<exists>es. trace (snd (queryStream_return g w)) = trace w @ es
        \<and> audits es = 0 \<and> dispatches es \<le> unstarted g
        \<and> unstarted (snd (fst (queryStream_return g w))) = 0"
  "\<exists>es. trace (snd (queryStream_throw e g w)) = trace w @ es
        \<and> audits es = 0 \<and> dispatches es \<le> unstarted g
        \<and> unstarted (snd (fst (queryStream_throw e g w))) = 0"
  by (cases g; auto simp: queryStream_next_def queryStream_return_def queryStream_throw_def
      queryStream_loop_def calls audits_def dispatches_def
      split: rows.splits promise.splits)+

lemma consume_events:
  "\<exists>es. trace (snd (consume env cs g w)) = trace w @ es
        \<and> audits es = 0 \<and> dispatches es \<le> unstarted g"
proof (induction cs arbitrary: g w)
  case Nil
  show ?case by (simp add: audits_def dispatches_def)
next
  case (Cons x cs)
  define r where "r = (case x of Next \<Rightarrow> queryStream_next env g w
     | Return \<Rightarrow> queryStream_return g w | Throw e \<Rightarrow> queryStream_throw e g w)"
  obtain s g1 w1 where r: "r = ((s, g1), w1)"
    by (metis prod.exhaust)
  have "\<exists>es. trace w1 = trace w @ es \<and> audits es = 0 \<and> dispatches es \<le> unstarted g
     \<and> unstarted g1 = 0"
  proof (cases x)
    case Next
    then show ?thesis using stream_step_events(1) [of env g w] r by (simp add: r_def)
  next
    case Return
    then show ?thesis using stream_step_events(2) [of g w] r by (simp add: r_def)
  next
    case (Throw e)
    then show ?thesis using stream_step_events(3) [of e g w] r by (simp add: r_def)
  qed
  then obtain es1 where es1: "trace w1 = trace w @ es1" "audits es1 = 0"
    "dispatches es1 \<le> unstarted g" "unstarted g1 = 0"
    by blast
  obtain es2 where es2: "trace (snd (consume env cs g1 w1)) = trace w1 @ es2"
    "audits es2 = 0" "dispatches es2 \<le> unstarted g1"
    using Cons.IH [of g1 w1] by blast
  have eq: "consume env (x # cs) g w = consume env cs g1 w1"
    using r by (cases x) (simp_all add: r_def)
  have "trace (snd (consume env (x # cs) g w)) = trace w @ (es1 @ es2)"
    using eq es1(1) es2(1) by simp
  moreover have "audits (es1 @ es2) = 0" "dispatches (es1 @ es2) \<le> unstarted g"
    using es1 es2 by (simp_all add: audits_def dispatches_def)
  ultimately show ?case by blast
qed

lemma consume_log:
  assumes "unstarted g = 0"
  shows "\<exists>es. trace (snd (consume env cs g w)) = trace w @ es \<and> audit_log es = []"
proof -
  obtain es where "trace (snd (consume env cs g w)) = trace w @ es" "audits es = 0"
    "dispatches es \<le> unstarted g"
    using consume_events [of env cs g w] by blast
  then show ?thesis
    using assms audit_log_empty [of es] by auto
qed

lemma transactional_consume_log:
  assumes "transactional_unstarted g = 0"
  shows "\<exists>es. trace (snd (transactional_consume env cs g w)) = trace w @ es
           \<and> audit_log es = []"
proof -
  obtain es where "trace (snd (transactional_consume env cs g w)) = trace w @ es"
    "audits es = 0" "dispatches es \<le> transactional_unstarted g"
    using transactional_consume_events [of env cs g w] by blast
  then show ?thesis
    using assms audit_log_empty [of es] by auto
qed

lemma consume_unstarted_log:
  "\<exists>es. trace (snd (consume env cs (PStart p q) w)) = trace w @ es
        \<and> audit_log es =
            (case p of
               Fulfilled c \<Rightarrow> (case cs of Next # cs' \<Rightarrow> [ConnQueryStream c q] | _ \<Rightarrow> [])
             | _ \<Rightarrow> [])"
proof (cases cs)
  case Nil
  then show ?thesis by (simp add: audit_log_def split: promise.splits)
next
  case (Cons x cs')
  define r where "r = (case x of Next \<Rightarrow> queryStream_next env (PStart p q) w
     | Return \<Rightarrow> queryStream_return (PStart p q) w
     | Throw e \<Rightarrow> queryStream_throw e (PStart p q) w)"
  obtain s g1 w1 where r: "r = ((s, g1), w1)"
    by (metis prod.exhaust)
  have eq: "consume env cs (PStart p q) w = consume env cs' g1 w1"
    using r Cons by (cases x) (simp_all add: r_def)
  have first: "unstarted g1 = 0 \<and> (\<exists>es. trace w1 = trace w @ es
      \<and> audit_log es =
          (case p of
             Fulfilled c \<Rightarrow> (case x of Next \<Rightarrow> [ConnQueryStream c q] | _ \<Rightarrow> [])
           | _ \<Rightarrow> []))"
    using r
    by (cases x; cases p)
      (auto simp: r_def queryStream_next_def queryStream_return_def queryStream_throw_def
        queryStream_loop_def calls audit_log_def split: rows.splits)
  then obtain es1 where es1: "unstarted g1 = 0" "trace w1 = trace w @ es1"
    "audit_log es1 =
      (case p of
         Fulfilled c \<Rightarrow> (case x of Next \<Rightarrow> [ConnQueryStream c q] | _ \<Rightarrow> [])
       | _ \<Rightarrow> [])"
    by blast
  obtain es2 where es2: "trace (snd (consume env cs' g1 w1)) = trace w1 @ es2"
    "audit_log es2 = []"
    using consume_log [OF es1(1), of env cs' w1] by blast
  have "trace (snd (consume env cs (PStart p q) w)) = trace w @ (es1 @ es2)"
    using eq es1(2) es2(1) by simp
  moreover have "audit_log (es1 @ es2) =
      (case p of
         Fulfilled c \<Rightarrow> (case cs of Next # cs' \<Rightarrow> [ConnQueryStream c q] | _ \<Rightarrow> [])
       | _ \<Rightarrow> [])"
    using es1(3) es2(2) Cons
    by (simp add: audit_log_append split: promise.splits call.splits)
  ultimately show ?thesis by blast
qed

lemma stream_session_log:
  "audit_log (since w (stream_session env q cs w)) =
     (case hook_throws env (trace w) q of
        Some e \<Rightarrow> [OnQuery q]
      | None \<Rightarrow>
          (case pool_grants env (trace w @ [OnQuery q]) of
             Fulfilled c \<Rightarrow>
               (case cs of Next # cs' \<Rightarrow> [OnQuery q, ConnQueryStream c q] | _ \<Rightarrow> [OnQuery q])
           | _ \<Rightarrow> [OnQuery q]))"
proof (cases "hook_throws env (trace w) q")
  case None
  define w1 where "w1 = emit GetConnection (emit (OnQuery q) w)"
  define p where "p = pool_grants env (trace w @ [OnQuery q])"
  obtain es where es: "trace (snd (consume env cs (PStart p q) w1)) = trace w1 @ es"
    "audit_log es =
      (case p of
         Fulfilled c \<Rightarrow> (case cs of Next # cs' \<Rightarrow> [ConnQueryStream c q] | _ \<Rightarrow> [])
       | _ \<Rightarrow> [])"
    using consume_unstarted_log [of env cs p q w1] by blast
  have "stream_session env q cs w = snd (consume env cs (PStart p q) w1)"
    using None by (simp add: stream_session_def queryStream_def calls w1_def p_def)
  then have "since w (stream_session env q cs w) = [OnQuery q, GetConnection] @ es"
    using es(1) by (simp add: since_def w1_def emit_def)
  then show ?thesis
    using es(2) None
    by (simp add: audit_log_Cons audit_log_Nil p_def
        split: promise.splits list.splits call.splits)
next
  case (Some e)
  then show ?thesis
    by (simp add: stream_session_def queryStream_def calls since_def audit_log_def)
qed

lemma transactional_session_log:
  "audit_log (since w (transactional_session env t q cs w)) =
     (case hook_throws env (trace w) q of
        Some e \<Rightarrow> [OnQuery q]
      | None \<Rightarrow>
          (case cs of
             Next # cs' \<Rightarrow> [OnQuery q, ConnQueryStream (connection (transaction w t)) q]
           | _ \<Rightarrow> [OnQuery q]))"
proof (cases "hook_throws env (trace w) q")
  case None
  define w1 where "w1 = emit (OnQuery q) w"
  have start: "transactional_session env t q cs w =
      snd (transactional_consume env cs (TStart t q) w1)"
    using None
    by (simp add: transactional_session_def TransactionImplementation_queryStream_def
        onQuery_def w1_def)
  show ?thesis
  proof (cases cs)
    case Nil
    then show ?thesis
      using start None by (simp add: since_def w1_def emit_def audit_log_def)
  next
    case (Cons x cs')
    define r where "r = (case x of Next \<Rightarrow> transactionalQueryStream_next env (TStart t q) w1
       | Return \<Rightarrow> transactionalQueryStream_return (TStart t q) w1
       | Throw e \<Rightarrow> transactionalQueryStream_throw e (TStart t q) w1)"
    obtain s g1 w2 where r: "r = ((s, g1), w2)"
      by (metis prod.exhaust)
    have eq: "transactional_consume env cs (TStart t q) w1 = transactional_consume env cs' g1 w2"
      using r Cons by (cases x) (simp_all add: r_def)
    have first: "transactional_unstarted g1 = 0
        \<and> trace w2 = trace w1 @
            (case x of Next \<Rightarrow> [ConnQueryStream (connection (transaction w t)) q] | _ \<Rightarrow> [])"
      using r
      by (cases x)
        (auto simp: r_def transactionalQueryStream_next_def transactionalQueryStream_return_def
          transactionalQueryStream_throw_def transactional_loop_def calls w1_def
          split: rows.splits if_splits)
    obtain es2 where es2: "trace (snd (transactional_consume env cs' g1 w2)) = trace w2 @ es2"
      "audit_log es2 = []"
      using transactional_consume_log [OF conjunct1 [OF first], of env cs' w2] by blast
    have "since w (transactional_session env t q cs w) =
        OnQuery q # (case x of Next \<Rightarrow> [ConnQueryStream (connection (transaction w t)) q]
                     | _ \<Rightarrow> []) @ es2"
      using start eq first es2(1) by (simp add: since_def w1_def emit_def)
    then show ?thesis
      using es2(2) None Cons
      by (simp add: audit_log_Cons audit_log_Nil audit_log_append split: call.splits)
  qed
next
  case (Some e)
  then show ?thesis
    by (simp add: transactional_session_def TransactionImplementation_queryStream_def
        onQuery_def emit_def since_def audit_log_def)
qed

lemma tx_begin_refused_log:
  assumes "pool_grants env (trace w) = Fulfilled c"
    and "driver_query env (trace w @ [GetConnection]) c ''BEGIN'' = Inl e"
  shows "audit_log (since w (snd (tx env fn b w))) =
     [ConnQuery c ''BEGIN'', ConnQuery c ''ROLLBACK'']"
  using assms
  by (simp add: tx_def tx_try_def tx_setup_def tx_catch_def calls since_def audit_log_def
      split: sum.splits)

lemma tx_log:
  assumes "pool_grants env (trace w) = Fulfilled c"
    and "tx_setup env c (emit GetConnection w) = (Inr (t, k), w1)"
  shows "\<exists>tl. audit_log (since w (snd (tx env fn b w))) =
           ConnQuery c ''BEGIN'' # audit_log (since w1 (snd (run_fn env t fn b w1))) @ tl
         \<and> set tl \<subseteq> {ConnQuery c ''COMMIT'', ConnQuery c ''ROLLBACK''}"
proof -
  obtain r w2 where run: "run_fn env t fn b w1 = (r, w2)"
    by (metis prod.exhaust)
  have "only_trace w1 w2"
    using run_fn_only_trace [of w1 env t fn b] run by simp
  then obtain es where es: "w2 = w1\<lparr>trace := trace w1 @ es\<rparr>"
    by (auto simp: only_trace_def)
  have w1: "trace w1 = trace w @ [GetConnection, ConnQuery c ''BEGIN'']"
    "controller w1 c = Some k"
    using tx_setup_Inr [OF assms(2)] by (simp_all add: emit_def)
  have "\<exists>tl. trace (snd (tx env fn b w)) = trace w2 @ tl
      \<and> set (audit_log tl) \<subseteq> {ConnQuery c ''COMMIT'', ConnQuery c ''ROLLBACK''}"
    using assms run es w1(2)
    by (cases r; cases b)
      (auto simp: tx_def tx_try_def race_def tx_catch_def onReleaseTimeout_def calls Let_def
        audit_log_def settle_def split: sum.splits option.splits)
  then obtain tl where tl: "trace (snd (tx env fn b w)) = trace w2 @ tl"
    "set (audit_log tl) \<subseteq> {ConnQuery c ''COMMIT'', ConnQuery c ''ROLLBACK''}"
    by blast
  have a: "since w (snd (tx env fn b w)) = [GetConnection, ConnQuery c ''BEGIN''] @ es @ tl"
    using tl(1) es w1(1) by (simp add: since_def)
  have b: "since w1 (snd (run_fn env t fn b w1)) = es"
    using run es by (simp add: since_def)
  have "audit_log (since w (snd (tx env fn b w))) =
      ConnQuery c ''BEGIN'' # audit_log (since w1 (snd (run_fn env t fn b w1))) @ audit_log tl"
    using a b by (simp add: audit_log_Cons audit_log_append)
  then show ?thesis
    using tl(2) by blast
qed

text \<open>
  C2, amended. A query that reaches the driver through the one-shot \<^verbatim>\<open>query\<close>, a stream,
  or the transaction-scoped \<^verbatim>\<open>query\<close> and \<^verbatim>\<open>queryStream\<close> has been audited exactly once,
  before its dispatch: among the audit calls and dispatches of such a call (for a
  stream, of its whole life) there is one audit of the query, first, and at most one
  dispatch of the same query, after it, and no dispatch where there was no audit. The
  statements \<^verbatim>\<open>tx\<close> issues itself are dispatched unaudited: \<^verbatim>\<open>BEGIN\<close> comes first,
  the audits and dispatches between it and the end are those of the function's own
  calls, and what follows them is nothing but \<^verbatim>\<open>COMMIT\<close> and \<^verbatim>\<open>ROLLBACK\<close> dispatches.
\<close>

theorem user_queries_audited_once:
  "audit_log (since w (snd (query env q w))) =
     (case pool_grants env (trace w) of
        Fulfilled c \<Rightarrow>
          (case hook_throws env (trace w @ [GetConnection]) q of
             None \<Rightarrow> [OnQuery q, ConnQuery c q]
           | Some e \<Rightarrow> [OnQuery q])
      | _ \<Rightarrow> [])
   \<and> audit_log (since w (snd (TransactionImplementation_query env t q w))) =
       (if aborted (transaction w t) then []
        else (case hook_throws env (trace w) q of
                None \<Rightarrow> [OnQuery q, ConnQuery (connection (transaction w t)) q]
              | Some e \<Rightarrow> [OnQuery q]))
   \<and> audit_log (since w (stream_session env q cs w)) =
       (case hook_throws env (trace w) q of
          Some e \<Rightarrow> [OnQuery q]
        | None \<Rightarrow>
            (case pool_grants env (trace w @ [OnQuery q]) of
               Fulfilled c \<Rightarrow>
                 (case cs of Next # cs' \<Rightarrow> [OnQuery q, ConnQueryStream c q] | _ \<Rightarrow> [OnQuery q])
             | _ \<Rightarrow> [OnQuery q]))
   \<and> audit_log (since w (transactional_session env t q cs w)) =
       (case hook_throws env (trace w) q of
          Some e \<Rightarrow> [OnQuery q]
        | None \<Rightarrow>
            (case cs of
               Next # cs' \<Rightarrow> [OnQuery q, ConnQueryStream (connection (transaction w t)) q]
             | _ \<Rightarrow> [OnQuery q]))
   \<and> (pool_grants env (trace w) = Fulfilled c \<longrightarrow>
        (driver_query env (trace w @ [GetConnection]) c ''BEGIN'' = Inl e \<longrightarrow>
           audit_log (since w (snd (tx env fn b w))) =
             [ConnQuery c ''BEGIN'', ConnQuery c ''ROLLBACK''])
        \<and> (tx_setup env c (emit GetConnection w) = (Inr (t', k), w1) \<longrightarrow>
             (\<exists>tl. audit_log (since w (snd (tx env fn b w))) =
                     ConnQuery c ''BEGIN''
                     # audit_log (since w1 (snd (run_fn env t' fn b w1))) @ tl
                   \<and> set tl \<subseteq> {ConnQuery c ''COMMIT'', ConnQuery c ''ROLLBACK''})))"
  using query_log [of w env q] TransactionImplementation_query_log [of w env t q]
    stream_session_log [of w env q cs] transactional_session_log [of w env t q cs]
    tx_begin_refused_log [of env w c e fn b] tx_log [of env w c t' k w1 fn b]
  by simp

theorem user_queries_audited_once_witness:
  "pool_grants test_env (trace initial) = Fulfilled 7
   \<and> fst (tx_setup test_env 7 (emit GetConnection initial)) = Inr (0, 0)
   \<and> driver_query test_env (trace (emit (Dispose 7) initial) @ [GetConnection]) 7 ''BEGIN'' =
       Inl (Error ''disposed'')
   \<and> audit_log (since (emit (Dispose 7) initial)
        (snd (tx test_env test_fn None (emit (Dispose 7) initial)))) =
       [ConnQuery 7 ''BEGIN'', ConnQuery 7 ''ROLLBACK'']
   \<and> audit_log (since initial (snd (tx test_env test_fn None initial))) =
       [ConnQuery 7 ''BEGIN'',
        OnQuery ''SELECT 1 + 41 as foo'', ConnQuery 7 ''SELECT 1 + 41 as foo'',
        OnQuery ''SELECT 1 + 2 as bar'', ConnQuery 7 ''SELECT 1 + 2 as bar'',
        ConnQuery 7 ''COMMIT'']
   \<and> audit_log (since initial (snd (query test_env ''SELECT 1 + 1 as foo'' initial))) =
       [OnQuery ''SELECT 1 + 1 as foo'', ConnQuery 7 ''SELECT 1 + 1 as foo'']
   \<and> audit_log (since initial
        (stream_session test_env ''SELECT * FROM stream_values'' [Next, Next] initial)) =
       [OnQuery ''SELECT * FROM stream_values'',
        ConnQueryStream 7 ''SELECT * FROM stream_values'']"
  using user_queries_audited_once [of initial test_env "''SELECT 1 + 1 as foo''" 0
      "[Next, Next]" 7 "Error ''disposed''" test_fn None 0 0
      "snd (tx_setup test_env 7 (emit GetConnection initial))"]
    user_queries_audited_once [of "emit (Dispose 7) initial" test_env
      "''SELECT * FROM stream_values''" 0 "[Next, Next]" 7 "Error ''disposed''" test_fn None
      0 0 initial]
  by (simp add: evals since_def audit_log_def query_def stream_session_def queryStream_def
      queryStream_next_def queryStream_loop_def)

end
